theory Spec2Isabelle
  imports Complex_Main "HOL-Library.AList" "HOL-Library.Stream" "HOL-Library.Log_Nat"
begin

section \<open>The Tank.io game server (src/server.js)\<close>

text \<open>
  The server keeps six module-level stores (\<^verbatim>\<open>players\<close>, \<^verbatim>\<open>bullets\<close>,
  \<^verbatim>\<open>spectators\<close>, \<^verbatim>\<open>powerUps\<close>, \<^verbatim>\<open>explosions\<close>, \<^verbatim>\<open>leaderboard\<close>) and mutates them
  from four socket handlers (connection, \<^verbatim>\<open>playerMove\<close>, \<^verbatim>\<open>playerShoot\<close>,
  \<^verbatim>\<open>disconnect\<close>) and from the 60 Hz \<^verbatim>\<open>setInterval\<close> callback. Node runs them one
  at a time, so each is a function from the stores to the stores and the list of
  messages it emits.

  \<^item> A JavaScript \<^verbatim>\<open>Map\<close> is an association list in insertion order:
    \<^verbatim>\<open>set\<close> is \<open>AList.update\<close> (an existing key keeps its place, a new one is appended),
    \<^verbatim>\<open>delete\<close> is \<open>AList.delete\<close>, \<^verbatim>\<open>get\<close> is \<open>map_of\<close>, \<^verbatim>\<open>size\<close> is \<open>length\<close>.
  \<^item> The \<^verbatim>\<open>Set\<close> of spectators is a list in insertion order.
  \<^item> \<^verbatim>\<open>Math.random()\<close> and \<^verbatim>\<open>Date.now()\<close> read an oracle: two streams of the values
    the calls return, in call order.
  \<^item> A thrown \<^verbatim>\<open>TypeError\<close> is the result \<open>Inl TypeError\<close>. Nothing in the program
    catches it, so the process ends there and no later state exists.
  \<^item> A coordinate is a \<open>double\<close>: a real number, an infinity or \<^verbatim>\<open>NaN\<close>. Sums and
    products of finite coordinates are exact (the rounding and the overflow of doubles
    are not modelled, nor is the sign of zero). Random draws are real numbers;
    timestamps, health, damage and scores are integers. The one quotient of the
    program, \<^verbatim>\<open>p.kills / p.deaths\<close>, is rounded to the nearest double, since the two
    digits that \<^verbatim>\<open>toFixed(2)\<close> prints depend on it.
  \<^item> The payload of a message is an object, given by what the handler reads of it: the
    numbers its \<^verbatim>\<open>dx\<close> and \<^verbatim>\<open>dy\<close> convert to (\<^verbatim>\<open>NaN\<close> for a missing property or for
    text that is not a number) and the value of its \<^verbatim>\<open>angle\<close>.
\<close>

subsection \<open>JavaScript numbers that may be missing\<close>

datatype error = TypeError

text \<open>
  A property that one object literal sets and another leaves out reads as
  \<^verbatim>\<open>undefined\<close>; arithmetic on it gives \<^verbatim>\<open>NaN\<close>; every comparison with either is false.
\<close>

datatype jsnum = Undefined | NaN | Num int

fun js_add :: "jsnum \<Rightarrow> jsnum \<Rightarrow> jsnum" where
  "js_add (Num a) (Num b) = Num (a + b)"
| "js_add _ _ = NaN"

fun js_sub :: "jsnum \<Rightarrow> jsnum \<Rightarrow> jsnum" where
  "js_sub (Num a) (Num b) = Num (a - b)"
| "js_sub _ _ = NaN"

fun js_lt :: "jsnum \<Rightarrow> jsnum \<Rightarrow> bool" where
  "js_lt (Num a) (Num b) = (a < b)"
| "js_lt _ _ = False"

fun js_le :: "jsnum \<Rightarrow> jsnum \<Rightarrow> bool" where
  "js_le (Num a) (Num b) = (a \<le> b)"
| "js_le _ _ = False"

fun js_gt :: "jsnum \<Rightarrow> jsnum \<Rightarrow> bool" where
  "js_gt (Num a) (Num b) = (a > b)"
| "js_gt _ _ = False"

text \<open>\<^verbatim>\<open>Math.min(a, b)\<close>\<close>

fun Math_min :: "jsnum \<Rightarrow> jsnum \<Rightarrow> jsnum" where
  "Math_min (Num a) (Num b) = Num (min a b)"
| "Math_min _ _ = NaN"

subsection \<open>JavaScript doubles and payload values\<close>

text \<open>
  The value of a numeric expression over coordinates: \<^verbatim>\<open>NaN\<close>, an infinity or a real
  number, with the arithmetic and the comparisons of JavaScript on them.
\<close>

datatype double = NaN64 | NegInf | Fin real | PosInf

text \<open>\<^verbatim>\<open>a + b\<close>\<close>

fun d_add :: "double \<Rightarrow> double \<Rightarrow> double" where
  "d_add NaN64 b = NaN64"
| "d_add a NaN64 = NaN64"
| "d_add (Fin a) (Fin b) = Fin (a + b)"
| "d_add PosInf NegInf = NaN64"
| "d_add NegInf PosInf = NaN64"
| "d_add PosInf b = PosInf"
| "d_add a PosInf = PosInf"
| "d_add NegInf b = NegInf"
| "d_add a NegInf = NegInf"

text \<open>The sign of a double that is not \<^verbatim>\<open>NaN\<close>, and the infinity of a sign.\<close>

fun d_sign :: "double \<Rightarrow> real" where
  "d_sign (Fin a) = sgn a"
| "d_sign PosInf = 1"
| "d_sign NegInf = - 1"
| "d_sign NaN64 = 0"

definition infinity :: "real \<Rightarrow> double" where
  "infinity g = (if 0 < g then PosInf else if g < 0 then NegInf else NaN64)"

text \<open>\<^verbatim>\<open>a * b\<close>: zero times an infinity is \<^verbatim>\<open>NaN\<close>.\<close>

fun d_mul :: "double \<Rightarrow> double \<Rightarrow> double" where
  "d_mul NaN64 b = NaN64"
| "d_mul a NaN64 = NaN64"
| "d_mul (Fin a) (Fin b) = Fin (a * b)"
| "d_mul a b = infinity (d_sign a * d_sign b)"

text \<open>\<^verbatim>\<open>a < b\<close> and \<^verbatim>\<open>a > b\<close>: false when either is \<^verbatim>\<open>NaN\<close>.\<close>

fun d_lt :: "double \<Rightarrow> double \<Rightarrow> bool" where
  "d_lt NaN64 b = False"
| "d_lt a NaN64 = False"
| "d_lt (Fin a) (Fin b) = (a < b)"
| "d_lt a NegInf = False"
| "d_lt PosInf b = False"
| "d_lt NegInf b = True"
| "d_lt a PosInf = True"

abbreviation d_gt :: "double \<Rightarrow> double \<Rightarrow> bool" where
  "d_gt a b \<equiv> d_lt b a"

text \<open>\<^verbatim>\<open>Math.max(a, b)\<close> and \<^verbatim>\<open>Math.min(a, b)\<close>: \<^verbatim>\<open>NaN\<close> when either is \<^verbatim>\<open>NaN\<close>.\<close>

definition d_max :: "double \<Rightarrow> double \<Rightarrow> double" where
  "d_max a b = (if a = NaN64 \<or> b = NaN64 then NaN64 else if d_lt a b then b else a)"

definition d_min :: "double \<Rightarrow> double \<Rightarrow> double" where
  "d_min a b = (if a = NaN64 \<or> b = NaN64 then NaN64 else if d_lt b a then b else a)"

text \<open>\<^verbatim>\<open>Math.cos(a)\<close> and \<^verbatim>\<open>Math.sin(a)\<close>: \<^verbatim>\<open>NaN\<close> unless \<open>a\<close> is finite.\<close>

fun Math_cos :: "double \<Rightarrow> double" where
  "Math_cos (Fin a) = Fin (cos a)"
| "Math_cos a = NaN64"

fun Math_sin :: "double \<Rightarrow> double" where
  "Math_sin (Fin a) = Fin (sin a)"
| "Math_sin a = NaN64"

text \<open>
  A value a client sent and the program stores and sends on as it is: its text, and the
  number it converts to where the program computes with it. \<open>number_0\<close> is the literal
  \<^verbatim>\<open>0\<close>, \<open>js_undefined\<close> a missing property.
\<close>

record jsval =
  v_text :: string
  v_num :: double

definition number_0 :: jsval where
  "number_0 = \<lparr>v_text = ''0'', v_num = Fin 0\<rparr>"


subsection \<open>The oracle: \<^verbatim>\<open>Math.random()\<close>, \<^verbatim>\<open>Date.now()\<close>, \<^verbatim>\<open>toString(36)\<close>\<close>

text \<open>
  What a handler reads from outside the stores: \<open>rnd\<close>, the values its calls of
  \<^verbatim>\<open>Math.random()\<close> return (each in \<open>[0, 1)\<close>), \<open>clk\<close>, the values its calls of
  \<^verbatim>\<open>Date.now()\<close> return, and \<open>toString36\<close>, the base-36 text of a number, which is left
  open. No property below depends on which ids are generated.
\<close>

record env =
  rnd :: "real stream"
  clk :: "int stream"
  toString36 :: "real \<Rightarrow> string"

definition Math_random :: "env \<Rightarrow> real \<times> env" where
  "Math_random orc = (shd (rnd orc), orc\<lparr>rnd := stl (rnd orc)\<rparr>)"

definition Date_now :: "env \<Rightarrow> int \<times> env" where
  "Date_now orc = (shd (clk orc), orc\<lparr>clk := stl (clk orc)\<rparr>)"

text \<open>\<^verbatim>\<open>Math.random().toString(36).substr(2, 9)\<close>\<close>

definition generateId :: "env \<Rightarrow> string \<times> env" where
  "generateId orc =
     (let (r, orc1) = Math_random orc in (take 9 (drop 2 (toString36 orc r)), orc1))"

subsection \<open>Constants\<close>

definition MAX_PLAYERS :: nat where "MAX_PLAYERS = 8"
definition GAME_WIDTH :: real where "GAME_WIDTH = 1200"
definition GAME_HEIGHT :: real where "GAME_HEIGHT = 800"
definition TANK_SIZE :: real where "TANK_SIZE = 40"
definition BULLET_SIZE :: real where "BULLET_SIZE = 6"
definition BULLET_SPEED :: real where "BULLET_SPEED = 12"
definition TANK_SPEED :: real where "TANK_SPEED = 4"
definition POWER_UP_SPAWN_RATE :: real where "POWER_UP_SPAWN_RATE = 2 / 100"
definition EXPLOSION_DURATION :: int where "EXPLOSION_DURATION = 500"

subsection \<open>Entities\<close>

type_synonym sid = string

text \<open>\<^verbatim>\<open>player.powerUps\<close>: the expiry timestamp of each effect.\<close>

record effects =
  speed :: int
  shield :: int
  rapidFire :: int
  damage :: int

text \<open>
  A player object. The fields \<^verbatim>\<open>id, x, y, angle, health, score, color\<close> are set by both
  object literals of the program; the other six only by the literal of the connection
  handler, so they may be \<^verbatim>\<open>undefined\<close>. \<open>p_color\<close> is the hue drawn for the
  \<^verbatim>\<open>hsl(...)\<close> string. \<open>p_x\<close> and \<open>p_y\<close> hold what the move handler computes, which can
  be \<^verbatim>\<open>NaN\<close>; \<open>p_angle\<close> holds the value the client sent.
\<close>

record player =
  p_id :: sid
  p_x :: double
  p_y :: double
  p_angle :: jsval
  p_health :: jsnum
  p_maxHealth :: jsnum
  p_score :: int
  p_kills :: jsnum
  p_deaths :: jsnum
  p_color :: real
  p_powerUps :: "effects option"
  p_lastShot :: jsnum
  p_team :: jsnum

record bullet =
  b_id :: string
  b_playerId :: sid
  b_x :: double
  b_y :: double
  b_dx :: double
  b_dy :: double
  b_angle :: jsval
  b_damage :: int
  b_color :: string

datatype ptype = Speed | Shield | RapidFire | Health | Damage

text \<open>An entry of \<^verbatim>\<open>POWER_UP_TYPES\<close>.\<close>

record powerUpType =
  t_type :: ptype
  t_color :: string
  t_duration :: int
  t_effect :: string

text \<open>
  A power-up object. \<open>u_kind\<close> holds the four properties spread from
  \<^verbatim>\<open>...powerUpType\<close>; spreading \<^verbatim>\<open>undefined\<close> adds none (\<open>None\<close>).
\<close>

record powerUp =
  u_id :: string
  u_x :: real
  u_y :: real
  u_kind :: "powerUpType option"
  u_spawnTime :: int

record explosion =
  e_id :: string
  e_x :: double
  e_y :: double
  e_size :: real
  e_startTime :: int
  e_duration :: int

text \<open>
  A leaderboard entry. \<open>l_kd\<close> is the string \<^verbatim>\<open>toFixed(2)\<close> returns, as its number of
  hundredths; \<open>None\<close> is the string \<^verbatim>\<open>"NaN"\<close>.
\<close>

record entry =
  l_id :: sid
  l_score :: int
  l_kills :: jsnum
  l_deaths :: jsnum
  l_kd :: "int option"

record state =
  players :: "(sid \<times> player) list"
  bullets :: "(string \<times> bullet) list"
  spectators :: "sid list"
  powerUps :: "(string \<times> powerUp) list"
  explosions :: "(string \<times> explosion) list"
  leaderboard :: "entry list"

definition init :: state where
  "init = \<lparr>players = [], bullets = [], spectators = [], powerUps = [], explosions = [],
            leaderboard = []\<rparr>"

subsection \<open>Messages\<close>

datatype target = To sid | Broadcast

text \<open>
  The payloads of the emitted events. \<open>GameFull n b\<close>: \<open>n\<close> is the number the message
  string reports after \<^verbatim>\<open>Queue position:\<close>. \<open>GameState\<close>: players, bullets, the
  power-ups and explosions (absent in the spectator's snapshot), the game area and
  \<^verbatim>\<open>isSpectator\<close>. \<open>PlayerKilled\<close>: the two scores printed as names and the two colours.
\<close>

datatype event =
    GameFull nat bool
  | GameState "player list" "bullet list" "(powerUp list \<times> explosion list) option"
      "real \<times> real" bool
  | PlayerJoined nat
  | PowerUpCollected "ptype option" "string option"
  | PromotedToPlayer bool
  | PlayerCountUpdate nat nat
  | PlayerHit sid sid int double double
  | PlayerKilled int int real real
  | GameUpdate "player list" "bullet list" "powerUp list" "explosion list" "entry list"

type_synonym out = "target \<times> event"

subsection \<open>The connection handler\<close>

text \<open>\<^verbatim>\<open>spectators.add(id)\<close>\<close>

definition set_add :: "'a \<Rightarrow> 'a list \<Rightarrow> 'a list" where
  "set_add a xs = (if a \<in> set xs then xs else xs @ [a])"

text \<open>The object literal \<^verbatim>\<open>player\<close> of the connection handler (lines 152-171).\<close>

definition connect_player :: "sid \<Rightarrow> env \<Rightarrow> player \<times> env" where
  "connect_player i orc =
     (let (rx, orc1) = Math_random orc;
          (ry, orc2) = Math_random orc1;
          (rc, orc3) = Math_random orc2;
          (rt, orc4) = Math_random orc3
      in (\<lparr>p_id = i,
           p_x = Fin (rx * (GAME_WIDTH - TANK_SIZE)),
           p_y = Fin (ry * (GAME_HEIGHT - TANK_SIZE)),
           p_angle = number_0,
           p_health = Num 100,
           p_maxHealth = Num 100,
           p_score = 0,
           p_kills = Num 0,
           p_deaths = Num 0,
           p_color = rc * 360,
           p_powerUps = Some \<lparr>speed = 0, shield = 0, rapidFire = 0, damage = 0\<rparr>,
           p_lastShot = Num 0,
           p_team = Num \<lfloor>rt * 2\<rfloor>\<rparr>, orc4))"

text \<open>
  \<^verbatim>\<open>io.on('connection', ...)\<close> up to the registration of the socket's handlers. The
  full-game branch returns before \<^verbatim>\<open>socket.on\<close> is reached.
\<close>

definition connect :: "sid \<Rightarrow> env \<Rightarrow> state \<Rightarrow> state \<times> out list" where
  "connect i orc s =
     (if length (players s) \<ge> MAX_PLAYERS then
        (let s1 = s\<lparr>spectators := set_add i (spectators s)\<rparr>
         in (s1, [(To i, GameFull (length (spectators s1)) True),
                  (To i, GameState (map snd (players s1)) (map snd (bullets s1)) None
                           (GAME_WIDTH, GAME_HEIGHT) True)]))
      else
        (let (p, orc1) = connect_player i orc;
             s1 = s\<lparr>players := AList.update i p (players s)\<rparr>
         in (s1, [(To i, GameState (map snd (players s1)) (map snd (bullets s1))
                           (Some (map snd (powerUps s1), map snd (explosions s1)))
                           (GAME_WIDTH, GAME_HEIGHT) False),
                  (Broadcast, PlayerJoined (length (players s1)))])))"

subsection \<open>The disconnect handler\<close>

text \<open>The object literal \<^verbatim>\<open>newPlayer\<close> of the disconnect handler (lines 270-278).\<close>

definition newPlayer :: "sid \<Rightarrow> env \<Rightarrow> player \<times> env" where
  "newPlayer i orc =
     (let (rx, orc1) = Math_random orc;
          (ry, orc2) = Math_random orc1;
          (rc, orc3) = Math_random orc2
      in (\<lparr>p_id = i,
           p_x = Fin (rx * (GAME_WIDTH - TANK_SIZE)),
           p_y = Fin (ry * (GAME_HEIGHT - TANK_SIZE)),
           p_angle = number_0,
           p_health = Num 100,
           p_maxHealth = Undefined,
           p_score = 0,
           p_kills = Undefined,
           p_deaths = Undefined,
           p_color = rc * 360,
           p_powerUps = None,
           p_lastShot = Undefined,
           p_team = Undefined\<rparr>, orc3))"

text \<open>
  The handler of \<^verbatim>\<open>disconnect\<close>. \<^verbatim>\<open>spectators.delete(id)\<close> is \<open>removeAll\<close>; the loop over
  the bullets deletes those of the id; the promotion runs when
  \<^verbatim>\<open>wasPlayer && spectators.size > 0\<close>, for the first id of the set.
\<close>

definition disconnect :: "sid \<Rightarrow> env \<Rightarrow> state \<Rightarrow> state \<times> out list" where
  "disconnect i orc s =
     (let wasPlayer = (map_of (players s) i \<noteq> None);
          s1 = s\<lparr>players := AList.delete i (players s)\<rparr>;
          s2 = s1\<lparr>spectators := removeAll i (spectators s1)\<rparr>;
          s3 = s2\<lparr>bullets := filter (\<lambda>(bulletId, b). b_playerId b \<noteq> i) (bullets s2)\<rparr>
      in case spectators s3 of
           nextPlayerId # _ \<Rightarrow>
             if wasPlayer then
               (let s4 = s3\<lparr>spectators := removeAll nextPlayerId (spectators s3)\<rparr>;
                    (np, orc1) = newPlayer nextPlayerId orc;
                    s5 = s4\<lparr>players := AList.update nextPlayerId np (players s4)\<rparr>
                in (s5, [(To nextPlayerId, PromotedToPlayer False),
                         (Broadcast, PlayerCountUpdate (length (players s5))
                                       (length (spectators s5)))]))
             else (s3, [(Broadcast, PlayerCountUpdate (length (players s3))
                                      (length (spectators s3)))])
         | [] \<Rightarrow> (s3, [(Broadcast, PlayerCountUpdate (length (players s3))
                                     (length (spectators s3)))]))"

subsection \<open>Geometry\<close>

record rect =
  r_x :: double
  r_y :: double
  r_width :: double
  r_height :: double

definition checkCollision :: "rect \<Rightarrow> rect \<Rightarrow> bool" where
  "checkCollision rect1 rect2 \<longleftrightarrow>
     d_lt (r_x rect1) (d_add (r_x rect2) (r_width rect2)) \<and>
     d_gt (d_add (r_x rect1) (r_width rect1)) (r_x rect2) \<and>
     d_lt (r_y rect1) (d_add (r_y rect2) (r_height rect2)) \<and>
     d_gt (d_add (r_y rect1) (r_height rect1)) (r_y rect2)"

definition playerRect :: "player \<Rightarrow> rect" where
  "playerRect p =
     \<lparr>r_x = p_x p, r_y = p_y p, r_width = Fin TANK_SIZE, r_height = Fin TANK_SIZE\<rparr>"

definition powerUpRect :: "powerUp \<Rightarrow> rect" where
  "powerUpRect u =
     \<lparr>r_x = Fin (u_x u), r_y = Fin (u_y u), r_width = Fin 30, r_height = Fin 30\<rparr>"

definition bulletRect :: "bullet \<Rightarrow> rect" where
  "bulletRect b =
     \<lparr>r_x = b_x b, r_y = b_y b, r_width = Fin BULLET_SIZE, r_height = Fin BULLET_SIZE\<rparr>"

subsection \<open>Power-ups\<close>

text \<open>\<^verbatim>\<open>Object.values(POWER_UP_TYPES)\<close>, in the order of the literal.\<close>

definition POWER_UP_TYPES :: "powerUpType list" where
  "POWER_UP_TYPES =
     [\<lparr>t_type = Speed, t_color = ''#3498db'', t_duration = 10000, t_effect = ''Speed Boost''\<rparr>,
      \<lparr>t_type = Shield, t_color = ''#9b59b6'', t_duration = 8000, t_effect = ''Shield''\<rparr>,
      \<lparr>t_type = RapidFire, t_color = ''#e74c3c'', t_duration = 7000, t_effect = ''Rapid Fire''\<rparr>,
      \<lparr>t_type = Health, t_color = ''#2ecc71'', t_duration = 0, t_effect = ''Health Pack''\<rparr>,
      \<lparr>t_type = Damage, t_color = ''#f39c12'', t_duration = 12000, t_effect = ''Double Damage''\<rparr>]"

text \<open>\<^verbatim>\<open>types[k]\<close>: \<^verbatim>\<open>undefined\<close> outside the array.\<close>

definition types_at :: "int \<Rightarrow> powerUpType option" where
  "types_at k = (if 0 \<le> k \<and> k < 5 then Some (POWER_UP_TYPES ! nat k) else None)"

definition spawnPowerUp :: "env \<Rightarrow> state \<Rightarrow> env \<times> state" where
  "spawnPowerUp orc s =
     (let (r, orc1) = Math_random orc in
      if r < POWER_UP_SPAWN_RATE \<and> length (powerUps s) < 5 then
        (let (rt, orc2) = Math_random orc1;
             powerUpType = types_at \<lfloor>rt * 5\<rfloor>;
             (i, orc3) = generateId orc2;
             (rx, orc4) = Math_random orc3;
             (ry, orc5) = Math_random orc4;
             (t, orc6) = Date_now orc5;
             powerUp = \<lparr>u_id = i, u_x = rx * (GAME_WIDTH - 30), u_y = ry * (GAME_HEIGHT - 30),
                        u_kind = powerUpType, u_spawnTime = t\<rparr>
         in (orc6, s\<lparr>powerUps := AList.update i powerUp (powerUps s)\<rparr>))
      else (orc1, s))"

definition createExplosion :: "double \<Rightarrow> double \<Rightarrow> real \<Rightarrow> env \<Rightarrow> state \<Rightarrow> env \<times> state" where
  "createExplosion x y sz orc s =
     (let (i, orc1) = generateId orc;
          (t, orc2) = Date_now orc1;
          explosion = \<lparr>e_id = i, e_x = x, e_y = y, e_size = sz, e_startTime = t,
                        e_duration = EXPLOSION_DURATION\<rparr>
      in (orc2, s\<lparr>explosions := AList.update i explosion (explosions s)\<rparr>))"

text \<open>
  \<^verbatim>\<open>applyPowerUp(player, powerUp)\<close>. Writing a property of \<^verbatim>\<open>player.powerUps\<close> when
  that is \<^verbatim>\<open>undefined\<close> throws.
\<close>

definition set_effect :: "player \<Rightarrow> (effects \<Rightarrow> effects) \<Rightarrow> error + player" where
  "set_effect p f =
     (case p_powerUps p of None \<Rightarrow> Inl TypeError
      | Some e \<Rightarrow> Inr (p\<lparr>p_powerUps := Some (f e)\<rparr>))"

definition applyPowerUp :: "player \<Rightarrow> powerUp \<Rightarrow> env \<Rightarrow> (error + player) \<times> env" where
  "applyPowerUp p u orc =
     (let (now, orc1) = Date_now orc in
      (case u_kind u of
         None \<Rightarrow> Inr p
       | Some k \<Rightarrow>
           (case t_type k of
              Speed \<Rightarrow> set_effect p (\<lambda>e. e\<lparr>speed := now + t_duration k\<rparr>)
            | Shield \<Rightarrow> set_effect p (\<lambda>e. e\<lparr>shield := now + t_duration k\<rparr>)
            | RapidFire \<Rightarrow> set_effect p (\<lambda>e. e\<lparr>rapidFire := now + t_duration k\<rparr>)
            | Health \<Rightarrow>
                Inr (p\<lparr>p_health := Math_min (p_maxHealth p) (js_add (p_health p) (Num 50))\<rparr>)
            | Damage \<Rightarrow> set_effect p (\<lambda>e. e\<lparr>damage := now + t_duration k\<rparr>)),
       orc1))"

subsection \<open>The leaderboard\<close>

text \<open>
  \<^verbatim>\<open>k / d\<close> for integers \<open>k\<close> and \<open>0 < d\<close> (below \<open>2\<^sup>5\<^sup>3\<close> in absolute value): the double
  nearest to the quotient, ties to the even significand. \<open>binade k d\<close> is the exponent
  \<open>e\<close> with \<open>2\<^sup>e \<le> k / d < 2\<^sup>e\<^sup>+\<^sup>1\<close>, and the doubles of that range are the multiples of
  \<open>2\<^sup>e\<^sup>-\<^sup>5\<^sup>2\<close>.
\<close>

definition pow2 :: "int \<Rightarrow> real" where
  "pow2 e = (if 0 \<le> e then 2 ^ nat e else 1 / 2 ^ nat (- e))"

definition binade :: "int \<Rightarrow> int \<Rightarrow> int" where
  "binade k d =
     (let e0 = int (floorlog 2 (nat k)) - int (floorlog 2 (nat d))
      in if pow2 e0 * real_of_int d \<le> real_of_int k then e0 else e0 - 1)"

definition nearest_even :: "real \<Rightarrow> int" where
  "nearest_even m =
     (let f = \<lfloor>m\<rfloor>
      in if m - real_of_int f < 1 / 2 then f
         else if 1 / 2 < m - real_of_int f then f + 1
         else if even f then f else f + 1)"

definition quotient :: "int \<Rightarrow> int \<Rightarrow> real" where
  "quotient k d =
     (let u = pow2 (binade k d - 52)
      in real_of_int (nearest_even (real_of_int k / real_of_int d / u)) * u)"

definition js_div :: "int \<Rightarrow> int \<Rightarrow> real" where
  "js_div k d =
     (if k = 0 then 0 else if 0 < k then quotient k d else - quotient (- k) d)"

text \<open>
  \<^verbatim>\<open>x.toFixed(2)\<close> of a double, in hundredths: the nearest hundredth of its exact value,
  the one further from zero when two are as near.
\<close>

definition toFixed2 :: "real \<Rightarrow> int" where
  "toFixed2 x = (if x < 0 then - round (100 * (- x)) else round (100 * x))"

text \<open>
  \<^verbatim>\<open>p.deaths > 0 ? (p.kills / p.deaths).toFixed(2) : p.kills.toFixed(2)\<close>. Calling a
  method of \<^verbatim>\<open>undefined\<close> throws; \<^verbatim>\<open>NaN.toFixed(2)\<close> is \<^verbatim>\<open>"NaN"\<close>.
\<close>

definition kd :: "player \<Rightarrow> error + int option" where
  "kd p =
     (if js_gt (p_deaths p) (Num 0) then
        (case (p_kills p, p_deaths p) of
           (Num k, Num d) \<Rightarrow> Inr (Some (toFixed2 (js_div k d)))
         | _ \<Rightarrow> Inr None)
      else
        (case p_kills p of
           Undefined \<Rightarrow> Inl TypeError
         | NaN \<Rightarrow> Inr None
         | Num k \<Rightarrow> Inr (Some (toFixed2 (real_of_int k)))))"

text \<open>The callback of \<^verbatim>\<open>.map\<close> on one player, and the \<^verbatim>\<open>.map\<close> itself.\<close>

definition playerStat :: "player \<Rightarrow> error + entry" where
  "playerStat p =
     (case kd p of
        Inl e \<Rightarrow> Inl e
      | Inr r \<Rightarrow> Inr \<lparr>l_id = p_id p, l_score = p_score p, l_kills = p_kills p,
                      l_deaths = p_deaths p, l_kd = r\<rparr>)"

fun playerStats :: "player list \<Rightarrow> error + entry list" where
  "playerStats [] = Inr []"
| "playerStats (p # ps) =
     (case playerStat p of
        Inl e \<Rightarrow> Inl e
      | Inr a \<Rightarrow> (case playerStats ps of Inl e \<Rightarrow> Inl e | Inr as \<Rightarrow> Inr (a # as)))"

text \<open>
  \<^verbatim>\<open>playerStats.sort((a, b) => b.score - a.score)\<close>: the sort of an array is stable, and
  the scores are numbers, so the result is the stable sort by descending score.
\<close>

definition updateLeaderboard :: "state \<Rightarrow> error + state" where
  "updateLeaderboard s =
     (case playerStats (map snd (players s)) of
        Inl e \<Rightarrow> Inl e
      | Inr stats \<Rightarrow>
          Inr (s\<lparr>leaderboard := take 10 (sort_key (\<lambda>a. - l_score a) stats)\<rparr>))"

subsection \<open>The \<^verbatim>\<open>playerMove\<close> handler\<close>

text \<open>
  The payload: \<open>m_dx\<close> and \<open>m_dy\<close> are the numbers that \<^verbatim>\<open>data.dx\<close> and \<^verbatim>\<open>data.dy\<close>
  convert to in the products of lines 195-196, \<open>m_angle\<close> is \<^verbatim>\<open>data.angle\<close>. No line of
  the handler checks any of them.
\<close>

record move =
  m_dx :: double
  m_dy :: double
  m_angle :: jsval

text \<open>
  The loop over \<^verbatim>\<open>powerUps.entries()\<close>: the first power-up that overlaps the player is
  applied and deleted, and the loop breaks.
\<close>

fun collect :: "(string \<times> powerUp) list \<Rightarrow> sid \<Rightarrow> player \<Rightarrow> env \<Rightarrow> state
                  \<Rightarrow> error + state \<times> out list" where
  "collect [] i p orc s = Inr (s, [])"
| "collect ((powerUpId, u) # rest) i p orc s =
     (if checkCollision (playerRect p) (powerUpRect u) then
        (case applyPowerUp p u orc of
           (Inl e, orc1) \<Rightarrow> Inl e
         | (Inr p1, orc1) \<Rightarrow>
             Inr (s\<lparr>players := AList.update i p1 (players s),
                     powerUps := AList.delete powerUpId (powerUps s)\<rparr>,
                  [(To i, PowerUpCollected (map_option t_type (u_kind u))
                            (map_option t_effect (u_kind u)))]))
      else collect rest i p orc s)"

definition playerMove :: "sid \<Rightarrow> move \<Rightarrow> env \<Rightarrow> state \<Rightarrow> error + state \<times> out list" where
  "playerMove i d orc s =
     (case map_of (players s) i of
        None \<Rightarrow> Inr (s, [])
      | Some p \<Rightarrow>
          (case p_powerUps p of
             None \<Rightarrow> Inl TypeError
           | Some e \<Rightarrow>
               (let (t, orc1) = Date_now orc;
                    speedMultiplier = (if speed e > t then 2 else 1);
                    newX = d_add (p_x p)
                             (d_mul (d_mul (m_dx d) (Fin TANK_SPEED)) (Fin speedMultiplier));
                    newY = d_add (p_y p)
                             (d_mul (d_mul (m_dy d) (Fin TANK_SPEED)) (Fin speedMultiplier));
                    newX1 = d_max (Fin 0) (d_min (Fin (GAME_WIDTH - TANK_SIZE)) newX);
                    newY1 = d_max (Fin 0) (d_min (Fin (GAME_HEIGHT - TANK_SIZE)) newY);
                    p1 = p\<lparr>p_x := newX1, p_y := newY1, p_angle := m_angle d\<rparr>;
                    s1 = s\<lparr>players := AList.update i p1 (players s)\<rparr>
                in collect (powerUps s1) i p1 orc1 s1)))"

subsection \<open>The \<^verbatim>\<open>playerShoot\<close> handler\<close>

text \<open>The payload is given by its \<^verbatim>\<open>angle\<close>, the one property the handler reads.\<close>

definition playerShoot :: "sid \<Rightarrow> jsval \<Rightarrow> env \<Rightarrow> state \<Rightarrow> error + state \<times> out list" where
  "playerShoot i angle orc s =
     (case map_of (players s) i of
        None \<Rightarrow> Inr (s, [])
      | Some p \<Rightarrow>
          (case p_powerUps p of
             None \<Rightarrow> Inl TypeError
           | Some e \<Rightarrow>
               (let (now, orc1) = Date_now orc;
                    shootCooldown = (if rapidFire e > now then 100 else 300)
                in if js_lt (js_sub (Num now) (p_lastShot p)) (Num shootCooldown) then Inr (s, [])
                   else
                     (let p1 = p\<lparr>p_lastShot := Num now\<rparr>;
                          (bulletId, orc2) = generateId orc1;
                          b = \<lparr>b_id = bulletId, b_playerId = i,
                               b_x = d_add (p_x p1) (Fin (TANK_SIZE / 2)),
                               b_y = d_add (p_y p1) (Fin (TANK_SIZE / 2)),
                               b_dx = d_mul (Math_cos (v_num angle)) (Fin BULLET_SPEED),
                               b_dy = d_mul (Math_sin (v_num angle)) (Fin BULLET_SPEED),
                               b_angle = angle,
                               b_damage = (if damage e > now then 50 else 25),
                               b_color = (if damage e > now then ''#e74c3c'' else ''#f39c12'')\<rparr>
                      in Inr (s\<lparr>players := AList.update i p1 (players s),
                                 bullets := AList.update bulletId b (bullets s)\<rparr>, [])))))"

subsection \<open>The game loop\<close>

text \<open>
  The branch \<^verbatim>\<open>if (player.health <= 0)\<close> (lines 361-389), for the victim \<open>p\<close> stored
  under \<open>playerId\<close>, after the hit has been applied and announced. The loop has skipped
  the bullet's owner, so \<^verbatim>\<open>shooter\<close> and \<^verbatim>\<open>player\<close> are different objects.
\<close>

definition died :: "sid \<Rightarrow> player \<Rightarrow> bullet \<Rightarrow> env \<Rightarrow> state
                      \<Rightarrow> error + env \<times> state \<times> out list" where
  "died playerId p b orc s =
     (let (s1, out1) =
            (case map_of (players s) (b_playerId b) of
               None \<Rightarrow> (s, [])
             | Some shooter \<Rightarrow>
                 (let shooter1 = shooter\<lparr>p_score := p_score shooter + 2,
                                          p_kills := js_add (p_kills shooter) (Num 1)\<rparr>
                  in (s\<lparr>players := AList.update (b_playerId b) shooter1 (players s)\<rparr>,
                      [(Broadcast, PlayerKilled (p_score shooter1) (p_score p)
                                     (p_color shooter1) (p_color p))])));
          p1 = p\<lparr>p_deaths := js_add (p_deaths p) (Num 1)\<rparr>;
          (orc1, s2) = createExplosion (d_add (p_x p1) (Fin (TANK_SIZE / 2)))
                         (d_add (p_y p1) (Fin (TANK_SIZE / 2))) 100 orc s1;
          (rx, orc2) = Math_random orc1;
          (ry, orc3) = Math_random orc2;
          p2 = p1\<lparr>p_health := p_maxHealth p1,
                   p_x := Fin (rx * (GAME_WIDTH - TANK_SIZE)),
                   p_y := Fin (ry * (GAME_HEIGHT - TANK_SIZE)),
                   p_powerUps := Some \<lparr>speed = 0, shield = 0, rapidFire = 0, damage = 0\<rparr>\<rparr>;
          s3 = s2\<lparr>players := AList.update playerId p2 (players s2)\<rparr>
      in case updateLeaderboard s3 of
           Inl e \<Rightarrow> Inl e
         | Inr s4 \<Rightarrow> Inr (orc3, s4, out1))"

text \<open>
  The body of \<^verbatim>\<open>if (checkCollision(bulletRect, playerRect))\<close> (lines 338-390): the
  shield test reads \<^verbatim>\<open>Date.now()\<close> again; \<^verbatim>\<open>bullet.damage || 25\<close> replaces a zero
  damage by 25.
\<close>

definition hit :: "sid \<Rightarrow> player \<Rightarrow> string \<Rightarrow> bullet \<Rightarrow> env \<Rightarrow> state
                     \<Rightarrow> error + env \<times> state \<times> out list" where
  "hit playerId p bulletId b orc s =
     (case p_powerUps p of
        None \<Rightarrow> Inl TypeError
      | Some e \<Rightarrow>
          (let (t, orc1) = Date_now orc in
           if shield e > t then
             (let s1 = s\<lparr>bullets := AList.delete bulletId (bullets s)\<rparr>;
                  (orc2, s2) = createExplosion (b_x b) (b_y b) 30 orc1 s1
              in Inr (orc2, s2, []))
           else
             (let dmg = (if b_damage b = 0 then 25 else b_damage b);
                  p1 = p\<lparr>p_health := js_sub (p_health p) (Num dmg)\<rparr>;
                  s1 = s\<lparr>players := AList.update playerId p1 (players s),
                          bullets := AList.delete bulletId (bullets s)\<rparr>;
                  (orc2, s2) = createExplosion (b_x b) (b_y b) 40 orc1 s1;
                  out1 = [(Broadcast, PlayerHit playerId (b_playerId b) dmg (b_x b) (b_y b))]
              in if js_le (p_health p1) (Num 0) then
                   (case died playerId p1 b orc2 s2 of
                      Inl e \<Rightarrow> Inl e
                    | Inr (orc3, s3, out2) \<Rightarrow> Inr (orc3, s3, out1 @ out2))
                 else Inr (orc2, s2, out1))))"

text \<open>
  The loop over \<^verbatim>\<open>players.entries()\<close> for one bullet (lines 331-392): the owner is
  skipped, the first other player whose box overlaps the bullet's is hit, and the loop
  breaks.
\<close>

fun players_loop :: "(sid \<times> player) list \<Rightarrow> string \<Rightarrow> bullet \<Rightarrow> env \<Rightarrow> state
                       \<Rightarrow> error + env \<times> state \<times> out list" where
  "players_loop [] bulletId b orc s = Inr (orc, s, [])"
| "players_loop ((playerId, p) # rest) bulletId b orc s =
     (if playerId = b_playerId b then players_loop rest bulletId b orc s
      else if checkCollision (bulletRect b) (playerRect p) then hit playerId p bulletId b orc s
      else players_loop rest bulletId b orc s)"

text \<open>
  The loop over \<^verbatim>\<open>bullets.entries()\<close> (lines 320-393). The body changes or deletes only
  the entry it is visiting, so the entries still to visit are those of the store when
  the loop started.
\<close>

fun bullets_loop :: "(string \<times> bullet) list \<Rightarrow> env \<Rightarrow> state
                       \<Rightarrow> error + env \<times> state \<times> out list" where
  "bullets_loop [] orc s = Inr (orc, s, [])"
| "bullets_loop ((bulletId, b0) # rest) orc s =
     (let b = b0\<lparr>b_x := d_add (b_x b0) (b_dx b0), b_y := d_add (b_y b0) (b_dy b0)\<rparr>;
          s1 = s\<lparr>bullets := AList.update bulletId b (bullets s)\<rparr>
      in if d_lt (b_x b) (Fin 0) \<or> d_gt (b_x b) (Fin GAME_WIDTH) \<or>
            d_lt (b_y b) (Fin 0) \<or> d_gt (b_y b) (Fin GAME_HEIGHT) then
           bullets_loop rest orc (s1\<lparr>bullets := AList.delete bulletId (bullets s1)\<rparr>)
         else
           (case players_loop (players s1) bulletId b orc s1 of
              Inl e \<Rightarrow> Inl e
            | Inr (orc1, s2, out1) \<Rightarrow>
                (case bullets_loop rest orc1 s2 of
                   Inl e \<Rightarrow> Inl e
                 | Inr (orc2, s3, out2) \<Rightarrow> Inr (orc2, s3, out1 @ out2))))"

text \<open>The two expiry sweeps of the tick (lines 304-317).\<close>

definition sweep :: "int \<Rightarrow> state \<Rightarrow> state" where
  "sweep now s =
     (let s1 = s\<lparr>powerUps :=
                   filter (\<lambda>(powerUpId, u). \<not> (now - u_spawnTime u > 30000)) (powerUps s)\<rparr>
      in s1\<lparr>explosions :=
              filter (\<lambda>(explosionId, x). \<not> (now - e_startTime x > e_duration x))
                (explosions s1)\<rparr>)"

text \<open>The snapshot of \<^verbatim>\<open>io.emit('gameUpdate', ...)\<close> (lines 396-402).\<close>

definition gameUpdate :: "state \<Rightarrow> event" where
  "gameUpdate s =
     GameUpdate (map snd (players s)) (map snd (bullets s)) (map snd (powerUps s))
       (map snd (explosions s)) (leaderboard s)"

text \<open>One call of the \<^verbatim>\<open>setInterval\<close> callback.\<close>

definition tick :: "env \<Rightarrow> state \<Rightarrow> error + state \<times> out list" where
  "tick orc s =
     (let (orc1, s1) = spawnPowerUp orc s;
          (now, orc2) = Date_now orc1;
          s2 = sweep now s1
      in case bullets_loop (bullets s2) orc2 s2 of
           Inl e \<Rightarrow> Inl e
         | Inr (orc3, s3, out1) \<Rightarrow> Inr (s3, out1 @ [(Broadcast, gameUpdate s3)]))"

subsection \<open>Reachable states\<close>

text \<open>
  The states the stores can be in: the empty stores, and the result of any handler or
  tick that returns, for any socket id and any values of the random and clock reads.
  (The program registers a socket's handlers only when the socket was seated on
  connection, and gives every connection a new id; the relation does not rely on
  either, so it covers at least the states of the program.)
\<close>

inductive reachable :: "state \<Rightarrow> bool" where
  r_init: "reachable init"
| r_connect: "reachable s \<Longrightarrow> connect i orc s = (s', out) \<Longrightarrow> reachable s'"
| r_move: "reachable s \<Longrightarrow> playerMove i d orc s = Inr (s', out) \<Longrightarrow> reachable s'"
| r_shoot: "reachable s \<Longrightarrow> playerShoot i a orc s = Inr (s', out) \<Longrightarrow> reachable s'"
| r_disconnect: "reachable s \<Longrightarrow> disconnect i orc s = (s', out) \<Longrightarrow> reachable s'"
| r_tick: "reachable s \<Longrightarrow> tick orc s = Inr (s', out) \<Longrightarrow> reachable s'"

subsection \<open>Predicates of the properties\<close>

text \<open>The id \<open>i\<close> has left: it has no seat, is not queued and owns no bullet.\<close>

definition gone :: "sid \<Rightarrow> state \<Rightarrow> bool" where
  "gone i s \<longleftrightarrow>
     map_of (players s) i = None \<and> i \<notin> set (spectators s) \<and>
     (\<forall>(k, b) \<in> set (bullets s). b_playerId b \<noteq> i)"

text \<open>The power-up store is a map (its keys are distinct) of at most 5 entries.\<close>

definition capped :: "state \<Rightarrow> bool" where
  "capped s \<longleftrightarrow> distinct (map fst (powerUps s)) \<and> length (powerUps s) \<le> 5"

text \<open>Some \<^verbatim>\<open>playerHit\<close> event is among the emitted messages.\<close>

definition playerHit_sent :: "out list \<Rightarrow> bool" where
  "playerHit_sent out \<longleftrightarrow> (\<exists>i j d x y. (Broadcast, PlayerHit i j d x y) \<in> set out)"

text \<open>
  A player within its health bounds; a player with the health 100, the missing
  \<^verbatim>\<open>maxHealth\<close> and the missing \<^verbatim>\<open>powerUps\<close> that the disconnect handler gives it;
  the states where the player store has distinct keys, every
  player is one or the other and every bullet carries damage 25 or 50; and the states
  where that holds but for the player stored under \<open>j\<close>.
\<close>

definition healthy :: "player \<Rightarrow> bool" where
  "healthy p \<longleftrightarrow> (\<exists>h m. p_health p = Num h \<and> p_maxHealth p = Num m \<and> 0 < h \<and> h \<le> m)"

definition stripped :: "player \<Rightarrow> bool" where
  "stripped p \<longleftrightarrow> p_health p = Num 100 \<and> p_maxHealth p = Undefined \<and> p_powerUps p = None"

definition sound_but :: "sid \<Rightarrow> state \<Rightarrow> bool" where
  "sound_but j s \<longleftrightarrow>
     distinct (map fst (players s)) \<and>
     (\<forall>(i, p) \<in> set (players s). i \<noteq> j \<longrightarrow> healthy p \<or> stripped p) \<and>
     (\<forall>(k, b) \<in> set (bullets s). b_damage b = 25 \<or> b_damage b = 50)"

definition sound :: "state \<Rightarrow> bool" where
  "sound s \<longleftrightarrow>
     distinct (map fst (players s)) \<and>
     (\<forall>(i, p) \<in> set (players s). healthy p \<or> stripped p) \<and>
     (\<forall>(k, b) \<in> set (bullets s). b_damage b = 25 \<or> b_damage b = 50)"

text \<open>
  The player object \<open>p\<close>, with the effects \<open>e\<close>, after lines 194-204 of the move handler
  have run on the payload \<open>d\<close> at the time \<open>t\<close>.
\<close>

definition displaced :: "player \<Rightarrow> effects \<Rightarrow> move \<Rightarrow> int \<Rightarrow> player" where
  "displaced p e d t =
     p\<lparr>p_x := d_max (Fin 0) (d_min (Fin (GAME_WIDTH - TANK_SIZE))
               (d_add (p_x p) (d_mul (d_mul (m_dx d) (Fin TANK_SPEED))
                  (Fin (if speed e > t then 2 else 1))))),
       p_y := d_max (Fin 0) (d_min (Fin (GAME_HEIGHT - TANK_SIZE))
               (d_add (p_y p) (d_mul (d_mul (m_dy d) (Fin TANK_SPEED))
                  (Fin (if speed e > t then 2 else 1))))),
       p_angle := m_angle d\<rparr>"



subsection \<open>Concrete inputs\<close>

text \<open>
  An environment whose random draws are \<open>rs\<close> and then \<open>r\<close> for ever, whose clock reads
  are \<open>ts\<close> and then \<open>t\<close> for ever, and where every generated id is \<open>k\<close>.
\<close>

definition feed :: "real list \<Rightarrow> real \<Rightarrow> int list \<Rightarrow> int \<Rightarrow> string \<Rightarrow> env" where
  "feed rs r ts t k =
     \<lparr>rnd = rs @- sconst r, clk = ts @- sconst t, toString36 = (\<lambda>x. ''0.'' @ k)\<rparr>"

definition steady :: "int \<Rightarrow> env" where
  "steady t = feed [] (1 / 2) [] t ''q''"

text \<open>The player the connection handler creates for \<open>i\<close> when every draw is 1/2.\<close>

definition seated :: "sid \<Rightarrow> player" where
  "seated i =
     \<lparr>p_id = i, p_x = Fin 580, p_y = Fin 380, p_angle = number_0, p_health = Num 100,
      p_maxHealth = Num 100, p_score = 0, p_kills = Num 0, p_deaths = Num 0, p_color = 180,
      p_powerUps = Some \<lparr>speed = 0, shield = 0, rapidFire = 0, damage = 0\<rparr>,
      p_lastShot = Num 0, p_team = Num 1\<rparr>"

text \<open>The stores after the sockets \<open>is\<close> have connected to the empty game.\<close>

definition seats :: "sid list \<Rightarrow> state" where
  "seats is = init\<lparr>players := map (\<lambda>i. (i, seated i)) is\<rparr>"

definition eight :: "sid list" where
  "eight = [''a'', ''b'', ''c'', ''d'', ''e'', ''f'', ''g'', ''h'']"



text \<open>Three seated players with scores 2, 6 and 4, in this store order.\<close>

definition podium :: state where
  "podium = init\<lparr>players := [(''a'', (seated ''a'')\<lparr>p_score := 2\<rparr>),
                               (''b'', (seated ''b'')\<lparr>p_score := 6\<rparr>),
                               (''c'', (seated ''c'')\<lparr>p_score := 4\<rparr>)]\<rparr>"

text \<open>A bullet of \<open>i\<close> in flight, and a game where \<open>a\<close> plays, owns it, and \<open>i\<close> waits.\<close>

definition shell :: "sid \<Rightarrow> bullet" where
  "shell i = \<lparr>b_id = ''k'', b_playerId = i, b_x = Fin 20, b_y = Fin 20, b_dx = Fin 12,
              b_dy = Fin 0, b_angle = number_0, b_damage = 25, b_color = ''#f39c12''\<rparr>"

definition waiting :: state where
  "waiting = (seats [''a''])\<lparr>bullets := [(''k'', shell ''a'')], spectators := [''i'']\<rparr>"

text \<open>The seated player \<open>i\<close> at the position \<open>(x, y)\<close>.\<close>

definition tank :: "sid \<Rightarrow> real \<Rightarrow> real \<Rightarrow> player" where
  "tank i x y = (seated i)\<lparr>p_x := Fin x, p_y := Fin y\<rparr>"

text \<open>
  Player \<open>a\<close> has fired at \<open>b\<close>, whose shield expires at 10001 and who stands one step
  ahead of the bullet; \<open>c\<close> stands on the same spot.
\<close>

definition guarded :: player where
  "guarded = (tank ''b'' 29 0)\<lparr>p_powerUps :=
               Some \<lparr>speed = 0, shield = 10001, rapidFire = 0, damage = 0\<rparr>\<rparr>"

definition ambush :: state where
  "ambush = init\<lparr>players := [(''a'', tank ''a'' 0 0), (''b'', guarded), (''c'', tank ''c'' 29 0)],
                 bullets := [(''k'', shell ''a'')]\<rparr>"

text \<open>
  The player the disconnect handler creates for \<open>i\<close> when every draw is 1/2, and the
  stores after eight sockets were seated, \<open>i\<close> was queued, and \<open>a\<close> left.
\<close>

definition bare :: "sid \<Rightarrow> player" where
  "bare i =
     \<lparr>p_id = i, p_x = Fin 580, p_y = Fin 380, p_angle = number_0, p_health = Num 100,
      p_maxHealth = Undefined, p_score = 0, p_kills = Undefined, p_deaths = Undefined,
      p_color = 180, p_powerUps = None, p_lastShot = Undefined, p_team = Undefined\<rparr>"

definition full_house :: state where
  "full_house = (seats eight)\<lparr>spectators := [''i'']\<rparr>"

definition promoted :: state where
  "promoted = init\<lparr>players := map (\<lambda>i. (i, seated i)) (tl eight) @ [(''i'', bare ''i'')]\<rparr>"

text \<open>
  A duel: \<open>a\<close> at the origin, last shot at \<open>t\<close>, and \<open>b\<close> one bullet step ahead with
  health \<open>h\<close>; \<open>bs\<close> and \<open>xs\<close> are the bullets and explosions.
\<close>

definition duel :: "int \<Rightarrow> int \<Rightarrow> (string \<times> bullet) list \<Rightarrow> (string \<times> explosion) list \<Rightarrow> state" where
  "duel t h bs xs =
     init\<lparr>players := [(''a'', (tank ''a'' 0 0)\<lparr>p_lastShot := Num t\<rparr>),
                       (''b'', (tank ''b'' 29 0)\<lparr>p_health := Num h\<rparr>)],
          bullets := bs, explosions := xs\<rparr>"

text \<open>The entries of \<open>a\<close> (one kill) and \<open>b\<close> (one death) after \<open>a\<close> has killed \<open>b\<close>.\<close>

definition ranking :: "entry list" where
  "ranking =
     [\<lparr>l_id = ''a'', l_score = 2, l_kills = Num 1, l_deaths = Num 0, l_kd = Some 100\<rparr>,
      \<lparr>l_id = ''b'', l_score = 0, l_kills = Num 0, l_deaths = Num 1, l_kd = Some 0\<rparr>]"

text \<open>The stores after \<open>b\<close> was killed and has disconnected.\<close>

definition aftermath :: "int \<Rightarrow> (string \<times> explosion) list \<Rightarrow> state" where
  "aftermath t xs =
     init\<lparr>players := [(''a'', (tank ''a'' 0 0)\<lparr>p_lastShot := Num t, p_score := 2,
                                               p_kills := Num 1\<rparr>)],
          explosions := xs, leaderboard := ranking\<rparr>"

section \<open>Properties\<close>

lemmas consts_defs = MAX_PLAYERS_def GAME_WIDTH_def GAME_HEIGHT_def TANK_SIZE_def
  BULLET_SIZE_def BULLET_SPEED_def TANK_SPEED_def POWER_UP_SPAWN_RATE_def
  EXPLOSION_DURATION_def

subsection \<open>Reading the concrete environments\<close>

lemma feed_simps [simp]:
  "Math_random (feed (x # rs) r ts t k) = (x, feed rs r ts t k)"
  "Math_random (feed [] r ts t k) = (r, feed [] r ts t k)"
  "Date_now (feed rs r (y # ts) t k) = (y, feed rs r ts t k)"
  "Date_now (feed rs r [] t k) = (t, feed rs r [] t k)"
  "generateId (feed (x # rs) r ts t k) = (take 9 k, feed rs r ts t k)"
  "generateId (feed [] r ts t k) = (take 9 k, feed [] r ts t k)"
  "shd (clk (feed rs r (y # ts) t k)) = y"
  "shd (clk (feed rs r [] t k)) = t"
  by (simp_all add: feed_def Math_random_def Date_now_def generateId_def)

lemma connect_player_steady: "connect_player i (steady t) = (seated i, steady t)"
  by (simp add: connect_player_def steady_def seated_def consts_defs)

subsection \<open>A promoted spectator\<close>

lemma update_fresh: "k \<notin> fst ` set xs \<Longrightarrow> AList.update k v xs = xs @ [(k, v)]"
  by (induction xs) auto

lemma connect_seats:
  assumes "length is < 8" and "i \<notin> set is"
  shows "fst (connect i (steady t) (seats is)) = seats (is @ [i])"
proof -
  have "i \<notin> fst ` set (map (\<lambda>i. (i, seated i)) is)"
    using assms(2) by (auto simp: image_iff)
  then show ?thesis
    using assms(1)
    by (simp add: connect_def seats_def init_def MAX_PLAYERS_def connect_player_steady
        update_fresh)
qed

lemma reachable_seats: "distinct is \<Longrightarrow> length is \<le> 8 \<Longrightarrow> reachable (seats is)"
proof (induction "is" rule: rev_induct)
  case Nil
  show ?case using r_init by (simp add: seats_def init_def)
next
  case (snoc i "is")
  then have r: "reachable (seats is)" and l: "length is < 8" and f: "i \<notin> set is"
    by auto
  have "connect i (steady 1000) (seats is)
          = (seats (is @ [i]), snd (connect i (steady 1000) (seats is)))"
    using connect_seats [OF l f, of 1000] by (metis prod.collapse)
  with r show ?case by (rule r_connect)
qed

lemma reachable_full_house: "reachable full_house"
proof -
  have "reachable (seats eight)"
    by (rule reachable_seats) (simp_all add: eight_def)
  moreover have "connect ''i'' (steady 1000) (seats eight)
      = (full_house, snd (connect ''i'' (steady 1000) (seats eight)))"
    by (simp add: connect_def full_house_def seats_def eight_def init_def MAX_PLAYERS_def
        set_add_def)
  ultimately show ?thesis by (rule r_connect)
qed

lemma newPlayer_steady: "newPlayer i (steady t) = (bare i, steady t)"
  by (simp add: newPlayer_def steady_def bare_def consts_defs)

lemma disconnect_full_house:
  "disconnect ''a'' (steady 1000) full_house =
     (promoted, [(To ''i'', PromotedToPlayer False), (Broadcast, PlayerCountUpdate 8 0)])"
  by (simp add: disconnect_def full_house_def promoted_def seats_def eight_def init_def
      newPlayer_steady Let_def)

lemma reachable_promoted: "reachable promoted"
  using reachable_full_house disconnect_full_house by (rule r_disconnect)

lemma sweep_idle: "powerUps s = [] \<Longrightarrow> explosions s = [] \<Longrightarrow> sweep now s = s"
  by (cases s) (simp add: sweep_def)

lemma tick_idle:
  assumes "bullets s = []" and "powerUps s = []" and "explosions s = []"
  shows "tick (steady t) s = Inr (s, [(Broadcast, gameUpdate s)])"
  using assms by (simp add: tick_def spawnPowerUp_def sweep_idle steady_def consts_defs)

text \<open>
  Claim C1 fails on the code. Eight sockets \<open>a\<close> to \<open>h\<close> connect and are seated, \<open>i\<close>
  connects and is queued, \<open>a\<close> disconnects. The player created for \<open>i\<close> has health 100
  and score 0, but its \<^verbatim>\<open>maxHealth\<close>, \<^verbatim>\<open>kills\<close>, \<^verbatim>\<open>deaths\<close>, \<^verbatim>\<open>powerUps\<close>, \<^verbatim>\<open>lastShot\<close>
  and \<^verbatim>\<open>team\<close> are \<^verbatim>\<open>undefined\<close>, where the connection handler sets 100, 0, 0, four
  zero timers, 0 and a team for the same id and the same draws.
\<close>

theorem promotion_omits_fields:
  "reachable full_house \<and>
   (\<exists>s1 out np. disconnect ''a'' (steady 1000) full_house = (s1, out) \<and>
      (To ''i'', PromotedToPlayer False) \<in> set out \<and>
      map_of (players s1) ''i'' = Some np \<and>
      p_health np = Num 100 \<and> p_score np = 0 \<and>
      p_maxHealth np = Undefined \<and> p_kills np = Undefined \<and> p_deaths np = Undefined \<and>
      p_powerUps np = None \<and> p_lastShot np = Undefined \<and> p_team np = Undefined) \<and>
   (\<exists>p. fst (connect_player ''i'' (steady 1000)) = p \<and>
      p_health p = Num 100 \<and> p_score p = 0 \<and>
      p_maxHealth p = Num 100 \<and> p_kills p = Num 0 \<and> p_deaths p = Num 0 \<and>
      p_powerUps p = Some \<lparr>speed = 0, shield = 0, rapidFire = 0, damage = 0\<rparr> \<and>
      p_lastShot p = Num 0 \<and> p_team p = Num 1)"
  by (simp add: reachable_full_house disconnect_full_house connect_player_steady promoted_def
      eight_def bare_def seated_def)

lemma hit_without_powerUps: "p_powerUps p = None \<Longrightarrow> hit i p k b orc s = Inl TypeError"
  by (simp add: hit_def)

text \<open>
  Claim C2 fails on the code, through the same promoted player. After the run above a
  tick returns and broadcasts a snapshot in which player \<open>i\<close> has health 100 and no
  \<^verbatim>\<open>maxHealth\<close>: the comparison \<^verbatim>\<open>health <= maxHealth\<close> is false for it. (A bullet that
  overlaps such a player makes the tick throw at the shield test,
  \<open>hit_without_powerUps\<close>; every other player of every broadcast is within its bounds,
  \<open>broadcast_health\<close>.)
\<close>

theorem promoted_player_breaks_health_bound:
  "\<exists>s1 out p.
     reachable promoted \<and> tick (steady 2000) promoted = Inr (s1, out) \<and>
     (Broadcast, gameUpdate s1) \<in> set out \<and> (''i'', p) \<in> set (players s1) \<and>
     p_health p = Num 100 \<and> p_maxHealth p = Undefined \<and>
     \<not> js_le (p_health p) (p_maxHealth p)"
proof -
  have "tick (steady 2000) promoted = Inr (promoted, [(Broadcast, gameUpdate promoted)])"
    by (rule tick_idle) (simp_all add: promoted_def init_def)
  moreover have "(''i'', bare ''i'') \<in> set (players promoted)"
    by (simp add: promoted_def)
  ultimately show ?thesis
    using reachable_promoted by (auto simp: bare_def)
qed

subsection \<open>Health bounds of the players the connection handler creates\<close>

text \<open>
  Apart from the missing fields of a promoted player, the health bound holds: every
  reachable state is \<open>sound\<close>, and so every player of every broadcast snapshot has a
  positive health that is at most its \<^verbatim>\<open>maxHealth\<close>, or is a promoted player with health
  100 and no \<^verbatim>\<open>maxHealth\<close> (\<open>broadcast_health\<close> below).
\<close>

lemma update_all:
  "\<forall>(k, v) \<in> set xs. Q k v \<Longrightarrow> Q j w \<Longrightarrow> \<forall>(k, v) \<in> set (AList.update j w xs). Q k v"
  by (induction xs) auto

lemma update_distinct_all:
  "distinct (map fst xs) \<Longrightarrow> \<forall>(k, v) \<in> set xs. k \<noteq> j \<longrightarrow> P v \<Longrightarrow> P w \<Longrightarrow>
   \<forall>(k, v) \<in> set (AList.update j w xs). P v"
proof (induction xs)
  case Nil
  then show ?case by simp
next
  case (Cons a xs)
  obtain k v where a: "a = (k, v)" by (cases a)
  show ?case
  proof (cases "k = j")
    case True
    with Cons.prems have "\<forall>(k', v') \<in> set xs. k' \<noteq> j" by (force simp: a)
    with Cons.prems True show ?thesis by (auto simp: a)
  next
    case False
    with Cons show ?thesis by (auto simp: a)
  qed
qed

lemma delete_all:
  "\<forall>(k, v) \<in> set xs. Q k v \<Longrightarrow> \<forall>(k, v) \<in> set (AList.delete j xs). Q k v"
  by (auto simp: AList.delete_eq)

lemma map_of_all: "\<forall>(k, v) \<in> set xs. Q k v \<Longrightarrow> map_of xs j = Some w \<Longrightarrow> Q j w"
  by (auto dest: map_of_SomeD)

lemma sound_imp_but: "sound s \<Longrightarrow> sound_but j s"
  by (auto simp: sound_def sound_but_def)

lemma sound_but_players:
  assumes "sound_but j s" and "i = j \<or> healthy q \<or> stripped q"
  shows "sound_but j (s\<lparr>players := AList.update i q (players s)\<rparr>)"
  using assms
    update_all [of "players s" "\<lambda>k p. k \<noteq> j \<longrightarrow> healthy p \<or> stripped p" i q]
  by (auto simp: sound_but_def distinct_update)

lemma sound_but_restore:
  assumes "sound_but j s" and "healthy q \<or> stripped q"
  shows "sound (s\<lparr>players := AList.update j q (players s)\<rparr>)"
  using assms update_distinct_all [of "players s" j "\<lambda>p. healthy p \<or> stripped p" q]
  by (simp add: sound_but_def sound_def distinct_update)

lemma sound_players:
  "sound s \<Longrightarrow> healthy q \<or> stripped q \<Longrightarrow>
   sound (s\<lparr>players := AList.update j q (players s)\<rparr>)"
  by (intro sound_but_restore sound_imp_but)

lemma sound_but_lookup:
  "sound_but j s \<Longrightarrow> map_of (players s) i = Some p \<Longrightarrow> i \<noteq> j \<Longrightarrow>
   healthy p \<or> stripped p"
  using map_of_all [of "players s" "\<lambda>k p. k \<noteq> j \<longrightarrow> healthy p \<or> stripped p" i p]
  by (simp add: sound_but_def)

lemma sound_lookup:
  "sound s \<Longrightarrow> map_of (players s) i = Some p \<Longrightarrow> healthy p \<or> stripped p"
  using map_of_all [of "players s" "\<lambda>k p. healthy p \<or> stripped p" i p]
  by (simp add: sound_def)

lemma connect_sound: "sound s \<Longrightarrow> sound (fst (connect i orc s))"
proof -
  assume s: "sound s"
  have "healthy (fst (connect_player i orc))"
    by (simp add: connect_player_def healthy_def split_def Let_def)
  with sound_players [OF s, of "fst (connect_player i orc)" i] s show ?thesis
    by (auto simp: connect_def Let_def split_def sound_def)
qed

lemma disconnect_sound: "sound s \<Longrightarrow> sound (fst (disconnect i orc s))"
proof -
  assume s: "sound s"
  define s3 where "s3 = s\<lparr>players := AList.delete i (players s),
    spectators := removeAll i (spectators s),
    bullets := filter (\<lambda>(bulletId, b). b_playerId b \<noteq> i) (bullets s)\<rparr>"
  have 3: "sound s3"
    using s delete_all [of "players s" "\<lambda>k p. healthy p \<or> stripped p" i]
    by (auto simp: sound_def s3_def distinct_delete)
  have n: "stripped (fst (newPlayer j orc))" for j
    by (simp add: newPlayer_def stripped_def split_def Let_def)
  have "sound (s3\<lparr>spectators := xs,
                  players := AList.update j (fst (newPlayer j orc)) (players s3)\<rparr>)" for xs j
    using sound_players [OF 3, of "fst (newPlayer j orc)" j] n by (simp add: sound_def)
  with 3 show ?thesis
    by (auto simp: disconnect_def Let_def split_def s3_def split: list.splits)
qed

lemma playerShoot_sound:
  assumes "sound s" and "playerShoot i a orc s = Inr (s1, out)"
  shows "sound s1"
proof (cases "s1 = s")
  case True
  with assms show ?thesis by simp
next
  case False
  define p1 where "p1 = (the (map_of (players s) i))\<lparr>p_lastShot := Num (shd (clk orc))\<rparr>"
  from False assms(2) obtain p e j b
    where p: "map_of (players s) i = Some p" "p_powerUps p = Some e"
      and s1: "s1 = s\<lparr>players := AList.update i p1 (players s),
                      bullets := AList.update j b (bullets s)\<rparr>"
      and b: "b_damage b = 25 \<or> b_damage b = 50"
    by (auto simp: playerShoot_def Let_def split_def Date_now_def p1_def
        split: option.splits if_splits)
  from sound_lookup [OF assms(1) p(1)] p
  have "healthy p1"
    by (auto simp: healthy_def stripped_def p1_def)
  with sound_players [OF assms(1), of p1 i]
  have "sound (s\<lparr>players := AList.update i p1 (players s)\<rparr>)"
    by simp
  then show ?thesis
    unfolding s1 sound_def
    using update_all [of "bullets s" "\<lambda>k b. b_damage b = 25 \<or> b_damage b = 50" j b] b
    by simp
qed

lemma applyPowerUp_healthy:
  "healthy p \<Longrightarrow> applyPowerUp p u orc = (Inr p1, orc1) \<Longrightarrow> healthy p1"
  by (auto simp: applyPowerUp_def set_effect_def Date_now_def Let_def healthy_def
      split: option.splits ptype.splits)

lemma collect_sound:
  "sound s \<Longrightarrow> healthy p \<Longrightarrow> collect us i p orc s = Inr (s1, out) \<Longrightarrow> sound s1"
proof (induction us)
  case Nil
  then show ?case by simp
next
  case (Cons a us)
  obtain k u where a: "a = (k, u)" by (cases a)
  show ?case
  proof (cases "checkCollision (playerRect p) (powerUpRect u)")
    case False
    with Cons show ?thesis unfolding a by simp
  next
    case True
    with Cons.prems(3) obtain p1 orc1
      where 1: "applyPowerUp p u orc = (Inr p1, orc1)"
        and 2: "s1 = s\<lparr>players := AList.update i p1 (players s),
                        powerUps := AList.delete k (powerUps s)\<rparr>"
      unfolding a by (auto split: sum.splits prod.splits)
    from applyPowerUp_healthy [OF Cons.prems(2) 1] sound_players [OF Cons.prems(1), of p1 i]
    show ?thesis unfolding 2 by (simp add: sound_def)
  qed
qed

lemma playerMove_sound:
  assumes "sound s" and "playerMove i d orc s = Inr (s1, out)"
  shows "sound s1"
proof (cases "map_of (players s) i")
  case None
  with assms show ?thesis by (simp add: playerMove_def)
next
  case (Some p)
  with assms(2) obtain e where e: "p_powerUps p = Some e"
    by (auto simp: playerMove_def split: option.splits)
  from sound_lookup [OF assms(1) Some] e
  have h: "healthy p" by (auto simp: stripped_def)
  define m :: real where "m = (if speed e > shd (clk orc) then 2 else 1)"
  define p1 where
    "p1 = p\<lparr>p_x := d_max (Fin 0) (d_min (Fin (GAME_WIDTH - TANK_SIZE))
                     (d_add (p_x p) (d_mul (d_mul (m_dx d) (Fin TANK_SPEED)) (Fin m)))),
            p_y := d_max (Fin 0) (d_min (Fin (GAME_HEIGHT - TANK_SIZE))
                     (d_add (p_y p) (d_mul (d_mul (m_dy d) (Fin TANK_SPEED)) (Fin m)))),
            p_angle := m_angle d\<rparr>"
  define sa where "sa = s\<lparr>players := AList.update i p1 (players s)\<rparr>"
  have h1: "healthy p1" using h by (simp add: p1_def healthy_def)
  have sa: "sound sa" unfolding sa_def using assms(1) h1 by (intro sound_players) simp_all
  from assms(2) Some e
  have "collect (powerUps sa) i p1 (orc\<lparr>clk := stl (clk orc)\<rparr>) sa = Inr (s1, out)"
    by (simp add: playerMove_def Let_def Date_now_def p1_def sa_def m_def)
  with sa h1 show ?thesis by (rule collect_sound)
qed

lemma sound_but_cong:
  "players s1 = players s \<Longrightarrow> bullets s1 = bullets s \<Longrightarrow> sound_but j s1 = sound_but j s"
  by (simp add: sound_but_def)

lemma sound_cong:
  "players s1 = players s \<Longrightarrow> bullets s1 = bullets s \<Longrightarrow> sound s1 = sound s"
  by (simp add: sound_def)

lemma createExplosion_sound_but:
  "sound_but j (snd (createExplosion x y sz orc s)) = sound_but j s"
  by (rule sound_but_cong) (simp_all add: createExplosion_def Let_def split_def)

lemma createExplosion_sound: "sound (snd (createExplosion x y sz orc s)) = sound s"
  by (rule sound_cong) (simp_all add: createExplosion_def Let_def split_def)

lemma updateLeaderboard_sound: "updateLeaderboard s = Inr s1 \<Longrightarrow> sound s1 = sound s"
  by (rule sound_cong) (auto simp: updateLeaderboard_def split: sum.splits)

lemma sound_but_bullets_delete:
  "sound_but j s \<Longrightarrow> sound_but j (s\<lparr>bullets := AList.delete k (bullets s)\<rparr>)"
  using delete_all [of "bullets s" "\<lambda>k b. b_damage b = 25 \<or> b_damage b = 50" k]
  by (simp add: sound_but_def)

lemma sound_bullets_delete:
  "sound s \<Longrightarrow> sound (s\<lparr>bullets := AList.delete k (bullets s)\<rparr>)"
  using delete_all [of "bullets s" "\<lambda>k b. b_damage b = 25 \<or> b_damage b = 50" k]
  by (simp add: sound_def)

lemma died_sound:
  assumes "sound_but i s" and "i \<noteq> b_playerId b" and "p_maxHealth p = Num m" and "0 < m"
    and "died i p b orc s = Inr (orc1, s1, out)"
  shows "sound s1"
proof -
  define sa where "sa =
    (case map_of (players s) (b_playerId b) of
       None \<Rightarrow> s
     | Some shooter \<Rightarrow>
         s\<lparr>players := AList.update (b_playerId b)
                         (shooter\<lparr>p_score := p_score shooter + 2,
                                  p_kills := js_add (p_kills shooter) (Num 1)\<rparr>) (players s)\<rparr>)"
  have sa: "sound_but i sa"
  proof (cases "map_of (players s) (b_playerId b)")
    case None
    with assms(1) show ?thesis by (simp add: sa_def)
  next
    case (Some q)
    from sound_but_lookup [OF assms(1) Some] assms(2)
    have "healthy (q\<lparr>p_score := p_score q + 2, p_kills := js_add (p_kills q) (Num 1)\<rparr>)
        \<or> stripped (q\<lparr>p_score := p_score q + 2, p_kills := js_add (p_kills q) (Num 1)\<rparr>)"
      by (auto simp: healthy_def stripped_def)
    with sound_but_players [OF assms(1), of "b_playerId b"] Some show ?thesis
      by (simp add: sa_def)
  qed
  define ex
    where "ex = createExplosion (d_add (p_x p) (Fin (TANK_SIZE / 2)))
                  (d_add (p_y p) (Fin (TANK_SIZE / 2))) 100 orc sa"
  have sb: "sound_but i (snd ex)" using sa by (simp add: ex_def createExplosion_sound_but)
  define rx where "rx = fst (Math_random (fst ex))"
  define ry where "ry = fst (Math_random (snd (Math_random (fst ex))))"
  define p2 where
    "p2 = p\<lparr>p_deaths := js_add (p_deaths p) (Num 1), p_health := p_maxHealth p,
            p_x := Fin (rx * (GAME_WIDTH - TANK_SIZE)),
            p_y := Fin (ry * (GAME_HEIGHT - TANK_SIZE)),
            p_powerUps := Some \<lparr>speed = 0, shield = 0, rapidFire = 0, damage = 0\<rparr>\<rparr>"
  have "healthy p2" using assms(3,4) by (simp add: p2_def healthy_def)
  with sound_but_restore [OF sb, of p2]
  have sc: "sound ((snd ex)\<lparr>players := AList.update i p2 (players (snd ex))\<rparr>)" by simp
  from assms(5)
  have "updateLeaderboard ((snd ex)\<lparr>players := AList.update i p2 (players (snd ex))\<rparr>)
          = Inr s1"
    by (auto simp: died_def Let_def split_def sa_def ex_def rx_def ry_def p2_def
        split: sum.splits option.splits)
  from updateLeaderboard_sound [OF this] sc show ?thesis by simp
qed

lemma hit_sound:
  assumes "sound s" and "healthy p \<or> stripped p" and "b_damage b = 25 \<or> b_damage b = 50"
    and "i \<noteq> b_playerId b" and "hit i p k b orc s = Inr (orc1, s1, out)"
  shows "sound s1"
proof -
  from assms(5) obtain e where e: "p_powerUps p = Some e"
    by (auto simp: hit_def split: option.splits)
  with assms(2) obtain h m
    where h: "p_health p = Num h" "p_maxHealth p = Num m" "0 < h" "h \<le> m"
    by (auto simp: healthy_def stripped_def)
  define t where "t = shd (clk orc)"
  define orca where "orca = orc\<lparr>clk := stl (clk orc)\<rparr>"
  show ?thesis
  proof (cases "shield e > t")
    case True
    with assms(5) e
    have "s1 = snd (createExplosion (b_x b) (b_y b) 30 orca
                 (s\<lparr>bullets := AList.delete k (bullets s)\<rparr>))"
      by (auto simp: hit_def Let_def split_def Date_now_def t_def orca_def)
    with sound_bullets_delete [OF assms(1), of k] show ?thesis
      by (simp add: createExplosion_sound)
  next
    case noshield: False
    define dmg where "dmg = (if b_damage b = 0 then 25 else b_damage b)"
    have d: "0 < dmg" using assms(3) by (auto simp: dmg_def)
    define p1 where "p1 = p\<lparr>p_health := js_sub (p_health p) (Num dmg)\<rparr>"
    define sa where "sa = s\<lparr>players := AList.update i p1 (players s),
                           bullets := AList.delete k (bullets s)\<rparr>"
    define ex where "ex = createExplosion (b_x b) (b_y b) 40 orca sa"
    show ?thesis
    proof (cases "js_le (p_health p1) (Num 0)")
      case True
      with assms(5) e noshield obtain out2
        where dd: "died i p1 b (fst ex) (snd ex) = Inr (orc1, s1, out2)"
        by (auto simp: hit_def Let_def split_def Date_now_def t_def orca_def dmg_def p1_def
            sa_def ex_def split: sum.splits)
      have pm: "p_maxHealth p1 = Num m" using h by (simp add: p1_def)
      have "sound_but i (s\<lparr>players := AList.update i p1 (players s)\<rparr>)"
        using assms(1) by (intro sound_but_players sound_imp_but) simp_all
      from sound_but_bullets_delete [OF this, of k] have "sound_but i sa"
        by (simp add: sa_def)
      then have "sound_but i (snd ex)" by (simp add: ex_def createExplosion_sound_but)
      from died_sound [OF this assms(4) pm _ dd] h show ?thesis by simp
    next
      case False
      then have "healthy p1" using h d by (auto simp: p1_def healthy_def)
      with sound_players [OF assms(1), of p1 i]
      have "sound (s\<lparr>players := AList.update i p1 (players s)\<rparr>)" by simp
      from sound_bullets_delete [OF this, of k] have "sound sa"
        by (simp add: sa_def)
      moreover from assms(5) e noshield False have "s1 = snd ex"
        by (auto simp: hit_def Let_def split_def Date_now_def t_def orca_def dmg_def p1_def
            sa_def ex_def split: sum.splits)
      ultimately show ?thesis by (simp add: ex_def createExplosion_sound)
    qed
  qed
qed

lemma players_loop_sound:
  assumes "sound s" and "\<forall>(i, p) \<in> set ps. healthy p \<or> stripped p"
    and "b_damage b = 25 \<or> b_damage b = 50"
    and "players_loop ps k b orc s = Inr (orc1, s1, out)"
  shows "sound s1"
  using assms(2,4)
proof (induction ps)
  case Nil
  with assms(1) show ?case by simp
next
  case (Cons a ps)
  obtain i p where a: "a = (i, p)" by (cases a)
  show ?case
  proof (cases "i \<noteq> b_playerId b \<and> checkCollision (bulletRect b) (playerRect p)")
    case True
    with Cons.prems have "hit i p k b orc s = Inr (orc1, s1, out)" "healthy p \<or> stripped p"
      by (auto simp: a)
    with hit_sound [OF assms(1) _ assms(3), of p i k orc orc1 s1 out] True show ?thesis
      by simp
  next
    case False
    with Cons show ?thesis by (auto simp: a split: if_splits)
  qed
qed

lemma bullets_loop_sound:
  assumes "sound s" and "\<forall>(k, b) \<in> set bs. b_damage b = 25 \<or> b_damage b = 50"
    and "bullets_loop bs orc s = Inr (orc1, s1, out)"
  shows "sound s1"
  using assms
proof (induction bs arbitrary: orc s out)
  case Nil
  then show ?case by simp
next
  case (Cons a bs)
  obtain k b0 where a: "a = (k, b0)" by (cases a)
  define b where "b = b0\<lparr>b_x := d_add (b_x b0) (b_dx b0), b_y := d_add (b_y b0) (b_dy b0)\<rparr>"
  define sa where "sa = s\<lparr>bullets := AList.update k b (bullets s)\<rparr>"
  have bd: "b_damage b = 25 \<or> b_damage b = 50" using Cons.prems(2) by (simp add: a b_def)
  have sa: "sound sa"
    using Cons.prems(1) bd
      update_all [of "bullets s" "\<lambda>k b. b_damage b = 25 \<or> b_damage b = 50" k b]
    by (simp add: sound_def sa_def)
  have rest: "\<forall>(k, b) \<in> set bs. b_damage b = 25 \<or> b_damage b = 50"
    using Cons.prems(2) by simp
  show ?case
  proof (cases "d_lt (b_x b) (Fin 0) \<or> d_gt (b_x b) (Fin GAME_WIDTH) \<or>
                d_lt (b_y b) (Fin 0) \<or> d_gt (b_y b) (Fin GAME_HEIGHT)")
    case True
    with Cons.prems(3)
    have "bullets_loop bs orc (sa\<lparr>bullets := AList.delete k (bullets sa)\<rparr>)
            = Inr (orc1, s1, out)"
      unfolding a by (simp add: Let_def b_def sa_def)
    from Cons.IH [OF sound_bullets_delete [OF sa] rest this] show ?thesis .
  next
    case False
    with Cons.prems(3) obtain orc2 s2 out1 out2
      where 1: "players_loop (players sa) k b orc sa = Inr (orc2, s2, out1)"
        and 2: "bullets_loop bs orc2 s2 = Inr (orc1, s1, out2)"
      unfolding a by (auto simp: Let_def b_def sa_def split: sum.splits)
    have "\<forall>(i, p) \<in> set (players sa). healthy p \<or> stripped p"
      using sa by (simp add: sound_def)
    from players_loop_sound [OF sa this bd 1] have "sound s2" .
    from Cons.IH [OF this rest 2] show ?thesis .
  qed
qed

lemma spawnPowerUp_sound: "sound (snd (spawnPowerUp orc s)) = sound s"
  by (rule sound_cong) (simp_all add: spawnPowerUp_def Let_def split_def)

lemma sweep_sound: "sound (sweep now s) = sound s"
  by (rule sound_cong) (simp_all add: sweep_def Let_def)

lemma tick_sound:
  assumes "sound s" and "tick orc s = Inr (s1, out)"
  shows "sound s1"
proof -
  define sa
    where "sa = sweep (fst (Date_now (fst (spawnPowerUp orc s)))) (snd (spawnPowerUp orc s))"
  from assms(2) obtain orc1 orc2 out1
    where 1: "bullets_loop (bullets sa) orc1 sa = Inr (orc2, s1, out1)"
    by (auto simp: tick_def Let_def split_def sa_def split: sum.splits)
  have sa: "sound sa" using assms(1) by (simp add: sa_def sweep_sound spawnPowerUp_sound)
  then have "\<forall>(k, b) \<in> set (bullets sa). b_damage b = 25 \<or> b_damage b = 50"
    by (simp add: sound_def)
  from bullets_loop_sound [OF sa this 1] show ?thesis .
qed

lemma reachable_sound: "reachable s \<Longrightarrow> sound s"
proof (induction rule: reachable.induct)
  case r_init
  show ?case by (simp add: sound_def init_def)
next
  case (r_connect s i orc s' out)
  with connect_sound [of s i orc] show ?case by simp
next
  case (r_move s i d orc s' out)
  then show ?case by (blast intro: playerMove_sound)
next
  case (r_shoot s i a orc s' out)
  then show ?case by (blast intro: playerShoot_sound)
next
  case (r_disconnect s i orc s' out)
  with disconnect_sound [of s i orc] show ?case by simp
next
  case (r_tick s orc s' out)
  then show ?case by (blast intro: tick_sound)
qed

lemma broadcast_health:
  assumes "reachable s" and "tick orc s = Inr (s1, out)" and "p \<in> snd ` set (players s1)"
  shows "(Broadcast, gameUpdate s1) \<in> set out \<and>
         (\<exists>h. p_health p = Num h \<and> 0 < h \<and>
              (p_maxHealth p = Undefined \<and> h = 100 \<or>
               (\<exists>m. p_maxHealth p = Num m \<and> h \<le> m)))"
proof -
  from r_tick [OF assms(1,2)] have "sound s1" by (rule reachable_sound)
  with assms(3) have "healthy p \<or> stripped p" by (auto simp: sound_def)
  moreover from assms(2) have "(Broadcast, gameUpdate s1) \<in> set out"
    by (auto simp: tick_def Let_def split_def split: sum.splits)
  ultimately show ?thesis by (auto simp: healthy_def stripped_def)
qed

subsection \<open>Shield absorption\<close>

lemma players_loop_skips:
  assumes "\<forall>(j, q) \<in> set pre.
             j = b_playerId b \<or> \<not> checkCollision (bulletRect b) (playerRect q)"
  shows "players_loop (pre @ ps) k b orc s = players_loop ps k b orc s"
  using assms by (induction pre) auto

lemma hit_shielded:
  assumes "p_powerUps p = Some e" and "shield e > shd (clk orc)"
  shows "\<exists>orc1 j x. hit i p k b orc s =
           Inr (orc1, s\<lparr>bullets := AList.delete k (bullets s),
                         explosions := AList.update j x (explosions s)\<rparr>, []) \<and>
         e_x x = b_x b \<and> e_y x = b_y b \<and> e_size x = 30"
  using assms
  apply (simp add: hit_def Date_now_def createExplosion_def Let_def split_def)
  apply (intro exI conjI)
     apply (rule refl)
    apply simp_all
  done

text \<open>
  Claim C3, as the code has it. Let the scan of the player store for bullet \<open>b\<close> (stored
  under \<open>k\<close>) reach a player \<open>p\<close> that is not the owner and overlaps the bullet (every
  entry before it is the owner or does not overlap), and let the shield expiry of \<open>p\<close> be
  strictly greater than the value \<^verbatim>\<open>Date.now()\<close> returns at that test. Then the scan
  returns, emits nothing, leaves the player store as it was (so no health changes),
  deletes the bullet, adds one explosion of size 30, and does not depend on the entries
  after \<open>p\<close>: no further player is checked.
\<close>

theorem shield_absorbs:
  assumes "\<forall>(j, q) \<in> set pre.
             j = b_playerId b \<or> \<not> checkCollision (bulletRect b) (playerRect q)"
    and "i \<noteq> b_playerId b" and "checkCollision (bulletRect b) (playerRect p)"
    and "p_powerUps p = Some e" and "shield e > shd (clk orc)"
  shows "\<exists>orc1 j x.
           players_loop (pre @ (i, p) # rest) k b orc s =
             Inr (orc1, s\<lparr>bullets := AList.delete k (bullets s),
                           explosions := AList.update j x (explosions s)\<rparr>, []) \<and>
           e_size x = 30 \<and>
           players_loop (pre @ (i, p) # rest) k b orc s =
             players_loop (pre @ [(i, p)]) k b orc s"
proof -
  have "players_loop (pre @ (i, p) # rest) k b orc s = hit i p k b orc s"
    using assms(2,3) by (simp add: players_loop_skips [OF assms(1)])
  moreover have "players_loop (pre @ [(i, p)]) k b orc s = hit i p k b orc s"
    using assms(2,3) by (simp add: players_loop_skips [OF assms(1)])
  ultimately show ?thesis
    using hit_shielded [OF assms(4,5), of i k b s] by auto
qed

text \<open>
  At clock 10000 the shield of \<open>b\<close> (expiry 10001) absorbs the bullet of \<open>a\<close>; player \<open>c\<close>,
  on the same spot and later in the store, is not reached.
\<close>

theorem shield_absorbs_witness:
  "\<exists>orc1 x. players_loop (players ambush) ''k'' ((shell ''a'')\<lparr>b_x := Fin 32\<rparr>)
               (steady 10000) ambush
             = Inr (orc1, ambush\<lparr>bullets := [], explosions := [(''q'', x)]\<rparr>, []) \<and>
           e_size x = 30"
proof -
  let ?b = "(shell ''a'')\<lparr>b_x := Fin 32\<rparr>"
  have 1: "\<forall>(j, q) \<in> set [(''a'', tank ''a'' 0 0)].
             j = b_playerId ?b \<or> \<not> checkCollision (bulletRect ?b) (playerRect q)"
    by (simp add: shell_def)
  have 2: "''b'' \<noteq> b_playerId ?b" by (simp add: shell_def)
  have 3: "checkCollision (bulletRect ?b) (playerRect guarded)"
    by (simp add: checkCollision_def bulletRect_def playerRect_def shell_def guarded_def
        tank_def seated_def consts_defs)
  have 4: "p_powerUps guarded = Some \<lparr>speed = 0, shield = 10001, rapidFire = 0, damage = 0\<rparr>"
    by (simp add: guarded_def)
  have 5: "shield \<lparr>speed = 0, shield = 10001, rapidFire = 0, damage = 0\<rparr>
             > shd (clk (steady 10000))"
    by (simp add: steady_def)
  from shield_absorbs [OF 1 2 3 4 5, of "[(''c'', tank ''c'' 29 0)]" "''k''" ambush]
  obtain orc1 j x
    where "players_loop (players ambush) ''k'' ?b (steady 10000) ambush =
             Inr (orc1, ambush\<lparr>bullets := AList.delete ''k'' (bullets ambush),
                           explosions := AList.update j x (explosions ambush)\<rparr>, [])"
      and "e_size x = 30"
    by (auto simp: ambush_def)
  moreover
  have "players_loop (players ambush) ''k'' ?b (steady 10000) ambush =
             Inr (orc1, ambush\<lparr>bullets := AList.delete ''k'' (bullets ambush),
                           explosions := AList.update j x (explosions ambush)\<rparr>, [])
        \<Longrightarrow> j = ''q''"
    by (simp add: ambush_def init_def hit_def shell_def guarded_def tank_def seated_def
        steady_def createExplosion_def checkCollision_def bulletRect_def playerRect_def
        consts_defs)
  ultimately show ?thesis
    by (auto simp: ambush_def init_def)
qed

text \<open>
  Claim C3 as stated, with the shield measured against the tick's \<^verbatim>\<open>now\<close>, fails. The
  tick reads \<^verbatim>\<open>now = 10000\<close> (line 305); the shield of \<open>b\<close> expires at 10001, so it is
  active at the tick's \<^verbatim>\<open>now\<close>; the shield test (line 339) reads \<^verbatim>\<open>Date.now()\<close> again
  and gets 10001; the bullet takes 25 from the health of \<open>b\<close>.
\<close>

theorem shield_expired_by_later_clock:
  "\<exists>e s1 out p1.
     map_of (players ambush) ''b'' = Some guarded \<and> p_powerUps guarded = Some e \<and>
     fst (Date_now (fst (spawnPowerUp (feed [] (1 / 2) [10000] 10001 ''q'') ambush))) = 10000 \<and>
     shield e > 10000 \<and>
     tick (feed [] (1 / 2) [10000] 10001 ''q'') ambush = Inr (s1, out) \<and>
     map_of (players s1) ''b'' = Some p1 \<and> p_health guarded = Num 100 \<and> p_health p1 = Num 75"
  by (simp add: tick_def spawnPowerUp_def sweep_def ambush_def init_def hit_def shell_def
      guarded_def tank_def seated_def createExplosion_def checkCollision_def bulletRect_def
      playerRect_def Let_def consts_defs)

subsection \<open>A shielded player that the scan does not reach\<close>

text \<open>
  When the scan stops at an earlier player and returns, a shielded player further on in
  the store that the bullet also overlaps keeps its entry, and the bullet is deleted
  all the same.
\<close>

lemma createExplosion_stores:
  "players (snd (createExplosion x y sz orc s)) = players s \<and>
   bullets (snd (createExplosion x y sz orc s)) = bullets s"
  by (simp add: createExplosion_def Let_def split_def)

lemma died_others:
  assumes "died j q b orc s = Inr (orc1, s1, out)" and "i \<noteq> j" and "i \<noteq> b_playerId b"
  shows "map_of (players s1) i = map_of (players s) i \<and> bullets s1 = bullets s"
  using assms
  by (auto simp: died_def Let_def split_def createExplosion_def updateLeaderboard_def
      update_conv' split: sum.splits option.splits)

lemma hit_others:
  assumes "hit j q k b orc s = Inr (orc1, s1, out)" and "i \<noteq> j" and "i \<noteq> b_playerId b"
  shows "map_of (players s1) i = map_of (players s) i \<and> map_of (bullets s1) k = None"
proof -
  from assms(1) obtain e where e: "p_powerUps q = Some e"
    by (auto simp: hit_def split: option.splits)
  define dmg where "dmg = (if b_damage b = 0 then 25 else b_damage b)"
  define q1 where "q1 = q\<lparr>p_health := js_sub (p_health q) (Num dmg)\<rparr>"
  define sa where "sa = s\<lparr>players := AList.update j q1 (players s),
                         bullets := AList.delete k (bullets s)\<rparr>"
  define ex where "ex = createExplosion (b_x b) (b_y b) 40 (snd (Date_now orc)) sa"
  have sa: "map_of (players (snd ex)) i = map_of (players s) i \<and>
            map_of (bullets (snd ex)) k = None"
    using assms(2) by (simp add: ex_def createExplosion_stores sa_def update_conv' delete_conv')
  show ?thesis
  proof (cases "shield e > shd (clk orc)")
    case True
    with assms(1) e show ?thesis
      by (auto simp: hit_def Let_def split_def Date_now_def createExplosion_def delete_conv')
  next
    case noshield: False
    show ?thesis
    proof (cases "js_le (p_health q1) (Num 0)")
      case True
      with assms(1) e noshield obtain out2
        where "died j q1 b (fst ex) (snd ex) = Inr (orc1, s1, out2)"
        by (auto simp: hit_def Let_def split_def Date_now_def dmg_def q1_def sa_def ex_def
            split: sum.splits)
      from died_others [OF this assms(2,3)] sa show ?thesis by simp
    next
      case False
      with assms(1) e noshield have "s1 = snd ex"
        by (auto simp: hit_def Let_def split_def Date_now_def dmg_def q1_def sa_def ex_def
            split: sum.splits)
      with sa show ?thesis by simp
    qed
  qed
qed

lemma hit_shielded_stores:
  assumes "hit i p k b orc s = Inr (orc1, s1, out)"
    and "p_powerUps p = Some e" and "shield e > shd (clk orc)"
  shows "players s1 = players s \<and> map_of (bullets s1) k = None"
  using assms
  by (auto simp: hit_def Let_def split_def Date_now_def createExplosion_def delete_conv')

lemma shielded_player_keeps_health:
  assumes "players_loop ps k b orc s = Inr (orc1, s1, out)"
    and "(i, p) \<in> set ps" and "distinct (map fst ps)"
    and "i \<noteq> b_playerId b" and "checkCollision (bulletRect b) (playerRect p)"
    and "p_powerUps p = Some e" and "shield e > shd (clk orc)"
  shows "map_of (players s1) i = map_of (players s) i \<and> map_of (bullets s1) k = None"
  using assms(1-3)
proof (induction ps)
  case Nil
  then show ?case by simp
next
  case (Cons a ps)
  obtain j q where a: "a = (j, q)" by (cases a)
  show ?case
  proof (cases "j \<noteq> b_playerId b \<and> checkCollision (bulletRect b) (playerRect q)")
    case True
    with Cons.prems(1) have h: "hit j q k b orc s = Inr (orc1, s1, out)" by (simp add: a)
    show ?thesis
    proof (cases "j = i")
      case True
      with Cons.prems(2,3) have "q = p" by (force simp: a)
      with h hit_shielded_stores [OF _ assms(6,7)] show ?thesis by simp
    next
      case False
      then have "i \<noteq> j" by simp
      from hit_others [OF h this assms(4)] show ?thesis .
    qed
  next
    case False
    with Cons.prems assms(4,5) have "(i, p) \<in> set ps" by (auto simp: a)
    with False Cons show ?thesis by (auto simp: a split: if_splits)
  qed
qed

subsection \<open>Shooting cooldown\<close>

text \<open>
  Claim C4. Take a \<^verbatim>\<open>playerShoot\<close> request of player \<open>i\<close> that returns and leaves \<open>i\<close>
  in the store, and a second request of \<open>i\<close>, made in any later state \<open>s'\<close> where the
  player still has the \<^verbatim>\<open>lastShot\<close> the first request left, whose timestamp differs
  from the first one's by less than the cooldown in force (100 ms when \<^verbatim>\<open>rapidFire\<close>
  has not expired at the second timestamp, else 300 ms). Then the second request
  returns, and one of the two was dropped: either the first changed nothing and emitted
  nothing, or the second leaves every store as it was and emits nothing. So at most one
  of them inserts a bullet.
\<close>

theorem shoot_cooldown:
  assumes "playerShoot i a1 orc1 s = Inr (s1, out1)"
    and "map_of (players s1) i = Some p1"
    and "map_of (players s') i = Some p'"
    and "p_lastShot p' = p_lastShot p1" and "p_powerUps p' = Some e'"
    and "\<bar>shd (clk orc2) - shd (clk orc1)\<bar>
           < (if rapidFire e' > shd (clk orc2) then 100 else 300)"
  shows "(\<exists>s2 out2. playerShoot i a2 orc2 s' = Inr (s2, out2)) \<and>
         ((s1 = s \<and> out1 = []) \<or> playerShoot i a2 orc2 s' = Inr (s', []))"
proof
  show "\<exists>s2 out2. playerShoot i a2 orc2 s' = Inr (s2, out2)"
    using assms(3,5) by (simp add: playerShoot_def Let_def split_def)
next
  show "(s1 = s \<and> out1 = []) \<or> playerShoot i a2 orc2 s' = Inr (s', [])"
  proof (cases "s1 = s \<and> out1 = []")
    case True
    then show ?thesis ..
  next
    case False
    with assms(1,2) have "p_lastShot p1 = Num (shd (clk orc1))"
      by (auto simp: playerShoot_def Let_def split_def Date_now_def update_conv'
          split: option.splits if_splits)
    with assms(3-6) have "playerShoot i a2 orc2 s' = Inr (s', [])"
      by (auto simp: playerShoot_def Let_def Date_now_def)
    then show ?thesis ..
  qed
qed

text \<open>A shot at time 1000 is accepted; the next one, 299 ms later, is dropped.\<close>

theorem shoot_cooldown_witness:
  "\<exists>s1. playerShoot ''a'' number_0 (steady 1000) (seats [''a'']) = Inr (s1, []) \<and>
        s1 \<noteq> seats [''a''] \<and>
        playerShoot ''a'' number_0 (steady 1299) s1 = Inr (s1, [])"
proof -
  let ?s = "seats [''a'']"
  let ?e = "\<lparr>speed = 0, shield = 0, rapidFire = 0, damage = 0\<rparr>"
  let ?p = "(seated ''a'')\<lparr>p_lastShot := Num 1000\<rparr>"
  obtain s1 where 1: "playerShoot ''a'' number_0 (steady 1000) ?s = Inr (s1, [])"
    and 2: "bullets s1 \<noteq> []" and 3: "map_of (players s1) ''a'' = Some ?p"
    by (simp add: playerShoot_def seats_def seated_def init_def steady_def Let_def)
  have 4: "p_powerUps ?p = Some ?e"
    by (simp add: seated_def)
  have 5: "\<bar>shd (clk (steady 1299)) - shd (clk (steady 1000))\<bar>
             < (if rapidFire ?e > shd (clk (steady 1299)) then 100 else 300)"
    by (simp add: steady_def)
  have 6: "s1 \<noteq> ?s"
    using 2 by (auto simp: seats_def init_def)
  from shoot_cooldown [OF 1 3 3 refl 4 5, of number_0] 6
  have "playerShoot ''a'' number_0 (steady 1299) s1 = Inr (s1, [])"
    by simp
  with 1 6 show ?thesis by blast
qed

subsection \<open>What the game loop leaves alone\<close>

lemma createExplosion_frame:
  "createExplosion x y sz orc s = (orc1, s1) \<Longrightarrow>
     players s1 = players s \<and> bullets s1 = bullets s \<and> spectators s1 = spectators s \<and>
     powerUps s1 = powerUps s \<and> leaderboard s1 = leaderboard s"
  by (auto simp: createExplosion_def Let_def split: prod.splits)

lemma updateLeaderboard_frame:
  "updateLeaderboard s = Inr s1 \<Longrightarrow>
     players s1 = players s \<and> bullets s1 = bullets s \<and> spectators s1 = spectators s \<and>
     powerUps s1 = powerUps s \<and> explosions s1 = explosions s"
  by (auto simp: updateLeaderboard_def split: sum.splits)

lemma died_powerUps: "died i p b orc s = Inr (orc1, s1, out) \<Longrightarrow> powerUps s1 = powerUps s"
  by (auto simp: died_def Let_def Math_random_def split: prod.splits sum.splits option.splits
      dest!: createExplosion_frame updateLeaderboard_frame)

lemma hit_powerUps: "hit i p k b orc s = Inr (orc1, s1, out) \<Longrightarrow> powerUps s1 = powerUps s"
  by (auto simp: hit_def Let_def Date_now_def
      split: prod.splits sum.splits option.splits if_splits
      dest!: createExplosion_frame died_powerUps)

lemma players_loop_powerUps:
  "players_loop ps k b orc s = Inr (orc1, s1, out) \<Longrightarrow> powerUps s1 = powerUps s"
  by (induction ps) (auto split: if_splits dest: hit_powerUps)

lemma bullets_loop_powerUps:
  "bullets_loop bs orc s = Inr (orc1, s1, out) \<Longrightarrow> powerUps s1 = powerUps s"
proof (induction bs arbitrary: orc s orc1 s1 out)
  case Nil
  then show ?case by simp
next
  case (Cons a bs)
  obtain k b0 where a: "a = (k, b0)" by (cases a)
  show ?case
    using Cons.prems Cons.IH unfolding a
    by (fastforce simp: Let_def split: if_splits sum.splits prod.splits
        dest: players_loop_powerUps)
qed

subsection \<open>The power-up cap\<close>

lemma length_update_le: "length (AList.update k v xs) \<le> Suc (length xs)"
  by (induction xs) auto

lemma length_update_cap: "length xs < n \<Longrightarrow> length (AList.update k v xs) \<le> n"
  using length_update_le [of k v xs] by simp

lemma length_filter_cap: "length xs \<le> n \<Longrightarrow> length (filter P xs) \<le> n"
  by (rule le_trans [OF length_filter_le])

lemma delete_capped:
  "distinct (map fst xs) \<and> length xs \<le> n \<Longrightarrow>
   distinct (map fst (AList.delete k xs)) \<and> length (AList.delete k xs) \<le> n"
  by (simp add: distinct_delete) (simp add: AList.delete_eq length_filter_cap)

lemma spawnPowerUp_at_cap: "length (powerUps s) \<ge> 5 \<Longrightarrow> snd (spawnPowerUp orc s) = s"
  by (simp add: spawnPowerUp_def Let_def split: prod.splits)

lemma spawnPowerUp_powerUps:
  "powerUps (snd (spawnPowerUp orc s)) = powerUps s \<or>
   (length (powerUps s) < 5 \<and>
    (\<exists>k v. powerUps (snd (spawnPowerUp orc s)) = AList.update k v (powerUps s)))"
  by (auto simp: spawnPowerUp_def Let_def split_def)

lemma spawnPowerUp_capped:
  assumes "capped s"
  shows "capped (snd (spawnPowerUp orc s))"
  using assms spawnPowerUp_powerUps [of orc s]
  by (auto simp: capped_def distinct_update length_update_cap)

lemma sweep_capped: "capped s \<Longrightarrow> capped (sweep now s)"
  by (simp add: capped_def sweep_def Let_def distinct_map_filter length_filter_cap)

lemma tick_capped:
  assumes "capped s" and "tick orc s = Inr (s1, out)"
  shows "capped s1"
proof -
  obtain orc1 sa where a: "spawnPowerUp orc s = (orc1, sa)" by (cases "spawnPowerUp orc s")
  from assms(2) a have "powerUps s1 = powerUps (sweep (shd (clk orc1)) sa)"
    by (auto simp: tick_def Let_def Date_now_def split: prod.splits sum.splits
        dest!: bullets_loop_powerUps)
  moreover have "capped (sweep (shd (clk orc1)) sa)"
    using assms(1) spawnPowerUp_capped [of s orc] a by (simp add: sweep_capped)
  ultimately show ?thesis by (simp add: capped_def)
qed

lemma collect_powerUps:
  "collect us i p orc s = Inr (s1, out) \<Longrightarrow>
   powerUps s1 = powerUps s \<or> (\<exists>k. powerUps s1 = AList.delete k (powerUps s))"
proof (induction us)
  case Nil
  then show ?case by simp
next
  case (Cons a us)
  obtain k u where a: "a = (k, u)" by (cases a)
  show ?case
    using Cons unfolding a
    by (auto split: if_splits sum.splits prod.splits)
qed

lemma playerMove_capped:
  assumes "capped s" and "playerMove i d orc s = Inr (s1, out)"
  shows "capped s1"
proof -
  from assms(2)
  have "powerUps s1 = powerUps s \<or> (\<exists>k. powerUps s1 = AList.delete k (powerUps s))"
    by (auto simp: playerMove_def Let_def split: option.splits prod.splits
        dest!: collect_powerUps)
  with assms(1) show ?thesis
    using delete_capped [of "powerUps s" 5] by (auto simp: capped_def)
qed

lemma playerShoot_powerUps:
  "playerShoot i a orc s = Inr (s1, out) \<Longrightarrow> powerUps s1 = powerUps s"
  by (auto simp: playerShoot_def Let_def split: option.splits prod.splits if_splits)

lemma connect_powerUps: "connect i orc s = (s1, out) \<Longrightarrow> powerUps s1 = powerUps s"
  by (auto simp: connect_def Let_def split: prod.splits if_splits)

lemma disconnect_powerUps: "disconnect i orc s = (s1, out) \<Longrightarrow> powerUps s1 = powerUps s"
  by (auto simp: disconnect_def Let_def split: prod.splits if_splits list.splits)

lemma sweep_only_deletes: "set (powerUps (sweep now s)) \<subseteq> set (powerUps s)"
  by (auto simp: sweep_def Let_def)

text \<open>
  Claim C5. In every reachable state the power-up store has at most 5 entries (and
  distinct keys, so that its length is the \<^verbatim>\<open>size\<close> of the map). The steps behind it:
  \<open>spawnPowerUp\<close> leaves a store of 5 or more entries as it is
  (\<open>spawnPowerUp_at_cap\<close>) and otherwise sets one key (\<open>spawnPowerUp_powerUps\<close>); the
  sweep and a pickup only delete (\<open>sweep_only_deletes\<close>, \<open>collect_powerUps\<close>); the
  bullet loop and the other handlers do not touch the store.
\<close>

theorem powerUp_cap:
  assumes "reachable s"
  shows "distinct (map fst (powerUps s)) \<and> length (powerUps s) \<le> 5"
proof -
  from assms have "capped s"
  proof (induction rule: reachable.induct)
    case r_init
    show ?case by (simp add: capped_def init_def)
  next
    case (r_connect s i orc s' out)
    then show ?case by (auto simp: capped_def dest: connect_powerUps)
  next
    case (r_move s i d orc s' out)
    then show ?case by (blast intro: playerMove_capped)
  next
    case (r_shoot s i a orc s' out)
    then show ?case by (auto simp: capped_def dest: playerShoot_powerUps)
  next
    case (r_disconnect s i orc s' out)
    then show ?case by (auto simp: capped_def dest: disconnect_powerUps)
  next
    case (r_tick s orc s' out)
    then show ?case by (blast intro: tick_capped)
  qed
  then show ?thesis by (simp add: capped_def)
qed

text \<open>A tick whose first draw is below the spawn rate puts a power-up in the empty store.\<close>

theorem powerUp_cap_witness:
  "\<exists>s u. reachable s \<and> powerUps s = [(''q'', u)] \<and>
     distinct (map fst (powerUps s)) \<and> length (powerUps s) \<le> 5"
proof -
  obtain s u
    where 1: "tick (feed [1 / 100] (1 / 2) [] 1000 ''q'') init
                = Inr (s, [(Broadcast, gameUpdate s)])"
    and 2: "powerUps s = [(''q'', u)]"
    by (simp add: tick_def spawnPowerUp_def init_def sweep_def Let_def consts_defs)
  have "reachable s" using r_init 1 by (rule r_tick)
  with powerUp_cap [of s] 2 show ?thesis by blast
qed

subsection \<open>A connection to a full game\<close>

text \<open>
  Claim C6. When the player store holds at least \<open>MAX_PLAYERS\<close> (8) entries, a
  connection with a new id \<open>i\<close> creates no player: the only store that changes is the
  spectator queue, which gets \<open>i\<close> at its end, and the socket is sent \<^verbatim>\<open>gameFull\<close>
  reporting the queue position (the spectator count before the arrival, plus 1) and then
  a \<^verbatim>\<open>gameState\<close> snapshot of the players and bullets marked \<^verbatim>\<open>isSpectator\<close>.
\<close>

theorem full_game_queues_spectator:
  assumes "length (players s) \<ge> MAX_PLAYERS" and "i \<notin> set (spectators s)"
  shows "connect i orc s =
    (s\<lparr>spectators := spectators s @ [i]\<rparr>,
     [(To i, GameFull (length (spectators s) + 1) True),
      (To i, GameState (map snd (players s)) (map snd (bullets s)) None
               (GAME_WIDTH, GAME_HEIGHT) True)])"
  using assms by (simp add: connect_def set_add_def Let_def)

text \<open>The ninth connection to eight seated players is first in the queue.\<close>

theorem full_game_queues_spectator_witness:
  "connect ''i'' (steady 1000) (seats eight) =
    ((seats eight)\<lparr>spectators := [''i'']\<rparr>,
     [(To ''i'', GameFull 1 True),
      (To ''i'', GameState (map seated eight) [] None (1200, 800) True)])"
proof -
  have 1: "length (players (seats eight)) \<ge> MAX_PLAYERS"
    by (simp add: seats_def eight_def MAX_PLAYERS_def)
  have 2: "''i'' \<notin> set (spectators (seats eight))"
    by (simp add: seats_def init_def)
  show ?thesis
    using full_game_queues_spectator [OF 1 2, of "steady 1000"]
    by (simp add: seats_def init_def consts_defs comp_def)
qed

subsection \<open>The ratio of kills to deaths\<close>

text \<open>
  \<open>pow2\<close> is the power of two, \<open>binade k d\<close> the exponent of the quotient, and
  \<open>quotient k d\<close> a double of that exponent (or the first of the next one), at most half
  a unit in the last place from \<open>k / d\<close>.
\<close>

lemma pow2_powr: "pow2 e = 2 powr (real_of_int e)"
proof (cases "0 \<le> e")
  case True
  then have "real (nat e) = real_of_int e" by simp
  then have "(2::real) powr (real_of_int e) = 2 ^ nat e"
    by (metis powr_realpow zero_less_numeral)
  with True show ?thesis by (simp add: pow2_def)
next
  case False
  then have "real (nat (- e)) = - real_of_int e" by simp
  then have "(2::real) powr (- real_of_int e) = 2 ^ nat (- e)"
    by (metis powr_realpow zero_less_numeral)
  then have "1 / 2 ^ nat (- e) = 1 / (2::real) powr (- real_of_int e)"
    by simp
  also have "\<dots> = 2 powr (real_of_int e)"
    by (simp add: powr_minus field_simps)
  finally show ?thesis using False by (simp add: pow2_def)
qed

lemma pow2_pos: "0 < pow2 e"
  by (simp add: pow2_powr)

lemma pow2_add: "pow2 (a + b) = pow2 a * pow2 b"
  by (simp add: pow2_powr powr_add)

lemma pow2_nat: "pow2 (int n) = 2 ^ n"
  by (simp add: pow2_def)

lemma pow2_pred: "2 * pow2 (e - 1) = pow2 e"
  using pow2_add [of "e - 1" 1] by (simp add: pow2_def)

lemma floorlog_pow2:
  assumes "0 < k"
  shows "pow2 (int (floorlog 2 (nat k)) - 1) \<le> real_of_int k \<and>
         real_of_int k < pow2 (int (floorlog 2 (nat k)))"
proof -
  define a where "a = floorlog 2 (nat k)"
  from assms have a: "2 ^ (a - 1) \<le> nat k" "nat k < 2 ^ a"
    using floorlog_bounds [of "nat k" 2] by (simp_all add: a_def)
  from assms have a0: "0 < a"
    by (simp add: a_def floorlog_def)
  then have "int a - 1 = int (a - 1)" by simp
  then have 1: "pow2 (int a - 1) = 2 ^ (a - 1)" by (simp only: pow2_nat)
  from a(1) have "real (2 ^ (a - 1)) \<le> real (nat k)" by (simp only: of_nat_le_iff)
  with assms have 2: "2 ^ (a - 1) \<le> real_of_int k" by simp
  from a(2) have "real (nat k) < real (2 ^ a)" by (simp only: of_nat_less_iff)
  with assms have 3: "real_of_int k < 2 ^ a" by simp
  from 1 2 3 show ?thesis by (simp add: a_def [symmetric] pow2_nat)
qed

lemma binade_bounds:
  assumes "0 < k" and "0 < d"
  shows "pow2 (binade k d) \<le> real_of_int k / real_of_int d \<and>
         real_of_int k / real_of_int d < pow2 (binade k d + 1)"
proof -
  define a where "a = int (floorlog 2 (nat k))"
  define b where "b = int (floorlog 2 (nat d))"
  have ka: "pow2 (a - 1) \<le> real_of_int k" "real_of_int k < pow2 a"
    using floorlog_pow2 [OF assms(1)] by (simp_all add: a_def)
  have db: "pow2 (b - 1) \<le> real_of_int d" "real_of_int d < pow2 b"
    using floorlog_pow2 [OF assms(2)] by (simp_all add: b_def)
  show ?thesis
  proof (cases "pow2 (a - b) * real_of_int d \<le> real_of_int k")
    case True
    then have e: "binade k d = a - b"
      by (simp add: binade_def a_def b_def)
    have "pow2 a = pow2 (a - b + 1) * pow2 (b - 1)"
      using pow2_add [of "a - b + 1" "b - 1"] by simp
    also have "\<dots> \<le> pow2 (a - b + 1) * real_of_int d"
      using db(1) pow2_pos [of "a - b + 1"] by simp
    finally have "real_of_int k < pow2 (a - b + 1) * real_of_int d"
      using ka(2) by simp
    with True assms show ?thesis unfolding e by (simp add: field_simps)
  next
    case False
    then have e: "binade k d = a - b - 1"
      by (simp add: binade_def a_def b_def)
    have "pow2 (a - b - 1) * real_of_int d \<le> pow2 (a - b - 1) * pow2 b"
      using db(2) pow2_pos [of "a - b - 1"] by simp
    also have "\<dots> = pow2 (a - 1)"
      using pow2_add [of "a - b - 1" b] by simp
    finally have "pow2 (a - b - 1) * real_of_int d \<le> real_of_int k"
      using ka(1) by simp
    with False assms show ?thesis unfolding e by (simp add: field_simps)
  qed
qed

lemma nearest_even_near: "\<bar>real_of_int (nearest_even m) - m\<bar> \<le> 1 / 2"
  by (simp add: nearest_even_def Let_def)

lemma quotient_near:
  "\<bar>quotient k d - real_of_int k / real_of_int d\<bar> \<le> pow2 (binade k d - 52) / 2"
proof -
  define u where "u = pow2 (binade k d - 52)"
  define q where "q = real_of_int k / real_of_int d"
  have u: "0 < u" by (simp add: u_def pow2_pos)
  have "\<bar>real_of_int (nearest_even (q / u)) - q / u\<bar> \<le> 1 / 2"
    by (rule nearest_even_near)
  then have "\<bar>real_of_int (nearest_even (q / u)) - q / u\<bar> * u \<le> 1 / 2 * u"
    using u by (simp only: mult_le_cancel_right_pos)
  moreover have "(real_of_int (nearest_even (q / u)) - q / u) * u
                   = real_of_int (nearest_even (q / u)) * u - q"
    using u by (simp add: field_simps)
  then have "\<bar>real_of_int (nearest_even (q / u)) - q / u\<bar> * u
               = \<bar>real_of_int (nearest_even (q / u)) * u - q\<bar>"
    using u by (metis abs_mult abs_of_pos)
  ultimately show ?thesis
    by (simp add: quotient_def Let_def u_def [symmetric] q_def [symmetric])
qed

lemma quotient_significand:
  assumes "0 < k" and "0 < d"
  shows "2 ^ 52 \<le> nearest_even (real_of_int k / real_of_int d / pow2 (binade k d - 52)) \<and>
         nearest_even (real_of_int k / real_of_int d / pow2 (binade k d - 52)) \<le> 2 ^ 53"
proof -
  define e where "e = binade k d"
  define q where "q = real_of_int k / real_of_int d"
  define m where "m = q / pow2 (e - 52)"
  have b: "pow2 e \<le> q" "q < pow2 (e + 1)"
    using binade_bounds [OF assms] by (simp_all add: e_def q_def)
  have "pow2 52 = 2 ^ 52" and "pow2 53 = 2 ^ 53"
    by (simp_all add: pow2_def)
  then have 1: "pow2 e = 2 ^ 52 * pow2 (e - 52)"
    and 2: "pow2 (e + 1) = 2 ^ 53 * pow2 (e - 52)"
    using pow2_add [of 52 "e - 52"] pow2_add [of 53 "e - 52"]
    by (simp_all add: add.commute)
  have lo: "2 ^ 52 \<le> m"
    using b(1) pow2_pos [of "e - 52"] unfolding 1 m_def by (simp add: field_simps)
  have hi: "m < 2 ^ 53"
    using b(2) pow2_pos [of "e - 52"] unfolding 2 m_def by (simp add: field_simps)
  define fl where "fl = \<lfloor>m\<rfloor>"
  have f: "2 ^ 52 \<le> fl" "fl < 2 ^ 53"
    using lo hi by (simp_all add: fl_def le_floor_iff floor_less_iff)
  have "fl \<le> nearest_even m \<and> nearest_even m \<le> fl + 1"
    by (simp add: nearest_even_def Let_def fl_def)
  with f have "2 ^ 52 \<le> nearest_even m \<and> nearest_even m \<le> 2 ^ 53"
    by linarith
  then show ?thesis
    by (simp only: m_def e_def q_def)
qed

text \<open>
  Three kills and forty deaths: \<^verbatim>\<open>3 / 40\<close> is the double just below 0.075, and
  \<^verbatim>\<open>toFixed(2)\<close> of it is \<^verbatim>\<open>"0.07"\<close>, where the exact quotient would give 0.08.
\<close>

lemma quotient_3_40: "quotient 3 40 < 3 / 40"
  by (simp add: quotient_def binade_def compute_floorlog pow2_def nearest_even_def Let_def)

lemma kd_3_40: "kd ((seated ''a'')\<lparr>p_kills := Num 3, p_deaths := Num 40\<rparr>) = Inr (Some 7)"
  by (simp add: kd_def js_div_def quotient_def binade_def compute_floorlog pow2_def
      nearest_even_def toFixed2_def round_def Let_def)

lemma toFixed2_3_40: "toFixed2 (3 / 40) = 8"
  by (simp add: toFixed2_def round_def)

subsection \<open>The leaderboard is sorted and short\<close>

lemma sort_key_descending:
  "sorted_wrt (\<lambda>a b. l_score a \<ge> l_score b) (sort_key (\<lambda>a. - l_score a) xs)"
proof -
  have "sorted (map (\<lambda>a. - l_score a) (sort_key (\<lambda>a. - l_score a) xs))"
    by (rule sorted_sort_key)
  then show ?thesis by (simp add: sorted_map)
qed

text \<open>
  Claim C7. Whenever \<^verbatim>\<open>updateLeaderboard\<close> returns, the leaderboard it leaves has at
  most 10 entries, and any entry that stands before another has a score at least as
  high.
\<close>

theorem leaderboard_sorted_top10:
  assumes "updateLeaderboard s = Inr s'"
  shows "length (leaderboard s') \<le> 10 \<and>
         sorted_wrt (\<lambda>a b. l_score a \<ge> l_score b) (leaderboard s')"
proof -
  from assms obtain stats
    where "leaderboard s' = take 10 (sort_key (\<lambda>a. - l_score a) stats)"
    by (auto simp: updateLeaderboard_def split: sum.splits)
  then show ?thesis by (simp add: sort_key_descending)
qed

text \<open>Scores 2, 6, 4 in store order come out as 6, 4, 2.\<close>

theorem leaderboard_sorted_top10_witness:
  "\<exists>s'. updateLeaderboard podium = Inr s' \<and>
        map l_id (leaderboard s') = [''b'', ''c'', ''a''] \<and>
        length (leaderboard s') \<le> 10 \<and>
        sorted_wrt (\<lambda>a b. l_score a \<ge> l_score b) (leaderboard s')"
proof -
  obtain s' where 1: "updateLeaderboard podium = Inr s'"
    and 2: "map l_id (leaderboard s') = [''b'', ''c'', ''a'']"
    by (simp add: updateLeaderboard_def podium_def init_def playerStat_def kd_def seated_def)
  from leaderboard_sorted_top10 [OF 1] 1 2 show ?thesis
    by (intro exI [of _ s']) simp
qed

subsection \<open>Disconnecting twice\<close>

lemma delete_absent: "map_of xs k = None \<Longrightarrow> AList.delete k xs = xs"
  by (induction xs) (auto split: if_splits)

lemma disconnect_without_seat:
  "map_of (players s) i = None \<Longrightarrow>
   disconnect i orc s =
     (s\<lparr>spectators := removeAll i (spectators s),
        bullets := filter (\<lambda>(k, b). b_playerId b \<noteq> i) (bullets s)\<rparr>,
      [(Broadcast,
        PlayerCountUpdate (length (players s)) (length (removeAll i (spectators s))))])"
  by (simp add: disconnect_def Let_def delete_absent split: list.splits)

lemma removeAll_head: "removeAll i xs = n # rest \<Longrightarrow> n \<noteq> i"
proof -
  assume a: "removeAll i xs = n # rest"
  have "n \<in> set (removeAll i xs)" unfolding a by simp
  then show ?thesis by simp
qed

lemma disconnect_gone: "gone i (fst (disconnect i orc s))"
  by (auto simp: gone_def disconnect_def Let_def newPlayer_def Math_random_def update_conv'
      delete_conv' split: list.splits dest: removeAll_head)

lemma filter_owner_id:
  "(\<forall>(k, b) \<in> set xs. b_playerId b \<noteq> i) \<Longrightarrow>
   filter (\<lambda>(k, b). b_playerId b \<noteq> i) xs = xs"
  by (induction xs) auto

lemma disconnect_when_gone:
  "gone i s \<Longrightarrow>
   disconnect i orc s =
     (s, [(Broadcast, PlayerCountUpdate (length (players s)) (length (spectators s)))])"
  by (simp add: gone_def disconnect_without_seat filter_owner_id)

text \<open>
  Claim C8. The handler has no operation that throws. A second disconnect of an id, with
  \<open>s1\<close> the stores the first one left, changes no store and emits only the count
  update: in particular it promotes nobody. More generally, a disconnect of any id that
  holds no seat touches no player, removes only that id from the queue and only the
  bullets that id owns, and emits only the count update; so a promotion happens only
  when the id held a seat.
\<close>

theorem disconnect_idempotent:
  "(disconnect i orc1 s = (s1, out1) \<longrightarrow>
      disconnect i orc2 s1 =
        (s1, [(Broadcast, PlayerCountUpdate (length (players s1)) (length (spectators s1)))]))
   \<and> (map_of (players s) i = None \<longrightarrow>
      disconnect i orc1 s =
        (s\<lparr>spectators := removeAll i (spectators s),
           bullets := filter (\<lambda>(k, b). b_playerId b \<noteq> i) (bullets s)\<rparr>,
         [(Broadcast,
           PlayerCountUpdate (length (players s)) (length (removeAll i (spectators s))))]))"
proof (intro conjI impI)
  assume "disconnect i orc1 s = (s1, out1)"
  then have "s1 = fst (disconnect i orc1 s)" by simp
  then have "gone i s1" by (simp add: disconnect_gone)
  then show "disconnect i orc2 s1 =
        (s1, [(Broadcast, PlayerCountUpdate (length (players s1)) (length (spectators s1)))])"
    by (rule disconnect_when_gone)
next
  assume "map_of (players s) i = None"
  then show "disconnect i orc1 s =
        (s\<lparr>spectators := removeAll i (spectators s),
           bullets := filter (\<lambda>(k, b). b_playerId b \<noteq> i) (bullets s)\<rparr>,
         [(Broadcast,
           PlayerCountUpdate (length (players s)) (length (removeAll i (spectators s))))])"
    by (rule disconnect_without_seat)
qed

text \<open>
  Player \<open>a\<close> leaves while \<open>i\<close> waits: \<open>i\<close> is promoted and the bullet of \<open>a\<close> is
  deleted. The second disconnect of \<open>a\<close>, and a disconnect of the unknown id \<open>z\<close>,
  change nothing.
\<close>

theorem disconnect_idempotent_witness:
  "\<exists>s1 np. disconnect ''a'' (steady 1000) waiting =
             (s1, [(To ''i'', PromotedToPlayer False), (Broadcast, PlayerCountUpdate 1 0)]) \<and>
     players s1 = [(''i'', np)] \<and> bullets s1 = [] \<and>
     disconnect ''a'' (steady 2000) s1 = (s1, [(Broadcast, PlayerCountUpdate 1 0)]) \<and>
     disconnect ''z'' (steady 1000) waiting = (waiting, [(Broadcast, PlayerCountUpdate 1 1)])"
proof -
  obtain s1 np where 1: "disconnect ''a'' (steady 1000) waiting =
             (s1, [(To ''i'', PromotedToPlayer False), (Broadcast, PlayerCountUpdate 1 0)])"
    and 2: "players s1 = [(''i'', np)]" "bullets s1 = []" "spectators s1 = []"
    by (simp add: disconnect_def waiting_def seats_def init_def shell_def Let_def
        newPlayer_def steady_def)
  have 3: "map_of (players waiting) ''z'' = None"
    by (simp add: waiting_def seats_def)
  from disconnect_idempotent [of "''a''" "steady 1000" waiting s1 _ "steady 2000"] 1 2
  have 4: "disconnect ''a'' (steady 2000) s1 = (s1, [(Broadcast, PlayerCountUpdate 1 0)])"
    by simp
  from disconnect_idempotent [of "''z''" "steady 1000" waiting] 3
  have "disconnect ''z'' (steady 1000) waiting =
        (waiting\<lparr>spectators := removeAll ''z'' (spectators waiting),
           bullets := filter (\<lambda>(k, b). b_playerId b \<noteq> ''z'') (bullets waiting)\<rparr>,
         [(Broadcast,
           PlayerCountUpdate (length (players waiting))
             (length (removeAll ''z'' (spectators waiting))))])"
    by simp
  then have 5: "disconnect ''z'' (steady 1000) waiting = (waiting, [(Broadcast, PlayerCountUpdate 1 1)])"
    by (simp add: waiting_def seats_def init_def shell_def)
  from 1 2 4 5 show ?thesis by (intro exI [of _ s1] exI [of _ np]) simp
qed

subsection \<open>Movement and the bounds of the arena\<close>

lemma applyPowerUp_position:
  "applyPowerUp p u orc = (Inr p1, orc1) \<Longrightarrow> p_x p1 = p_x p \<and> p_y p1 = p_y p"
  by (auto simp: applyPowerUp_def set_effect_def Date_now_def Let_def
      split: option.splits ptype.splits)


lemma collect_position:
  "collect us i p orc s = Inr (s', out) \<Longrightarrow> map_of (players s) i = Some p \<Longrightarrow>
   \<exists>p'. map_of (players s') i = Some p' \<and> p_x p' = p_x p \<and> p_y p' = p_y p"
proof (induction us)
  case Nil
  then show ?case by simp
next
  case (Cons a us)
  obtain k u where a: "a = (k, u)" by (cases a)
  show ?case
    using Cons unfolding a
    by (auto simp: update_conv' split: if_splits sum.splits prod.splits
        dest: applyPowerUp_position)
qed



lemma clamp_NaN: "d_max lo (d_min hi NaN64) = NaN64"
  by (simp add: d_max_def d_min_def)

text \<open>
  What the handler does for a stored player with its \<^verbatim>\<open>powerUps\<close>: it stores the
  clamped sums and goes through the power-ups.
\<close>

lemma playerMove_stored:
  assumes "map_of (players s) i = Some p" and "p_powerUps p = Some e"
  shows "playerMove i d orc s
           = collect (powerUps s) i (displaced p e d (shd (clk orc))) (orc\<lparr>clk := stl (clk orc)\<rparr>)
               (s\<lparr>players := AList.update i (displaced p e d (shd (clk orc))) (players s)\<rparr>)"
  using assms by (simp add: playerMove_def Let_def Date_now_def displaced_def)

lemma playerMove_position:
  assumes "map_of (players s) i = Some p" and "playerMove i d orc s = Inr (s', out)"
  shows "\<exists>e p'. p_powerUps p = Some e \<and> map_of (players s') i = Some p' \<and>
                p_x p' = p_x (displaced p e d (shd (clk orc))) \<and>
                p_y p' = p_y (displaced p e d (shd (clk orc)))"
proof -
  from assms obtain e where e: "p_powerUps p = Some e"
    by (auto simp: playerMove_def split: option.splits)
  let ?p = "displaced p e d (shd (clk orc))"
  let ?s = "s\<lparr>players := AList.update i ?p (players s)\<rparr>"
  have "map_of (players ?s) i = Some ?p"
    by (simp add: update_conv')
  moreover from assms(2) playerMove_stored [OF assms(1) e, of d orc]
  have "collect (powerUps s) i ?p (orc\<lparr>clk := stl (clk orc)\<rparr>) ?s = Inr (s', out)"
    by simp
  ultimately show ?thesis
    using e by (blast dest: collect_position)
qed

text \<open>
  A player whose stored \<open>x\<close> or \<open>y\<close> is \<^verbatim>\<open>NaN\<close> keeps it through every move, whatever
  the message: \<^verbatim>\<open>NaN + v\<close> is \<^verbatim>\<open>NaN\<close>, and so are \<^verbatim>\<open>Math.min\<close> and \<^verbatim>\<open>Math.max\<close> of it.
\<close>

lemma playerMove_keeps_NaN:
  assumes "map_of (players s) i = Some p" and "playerMove i d orc s = Inr (s', out)"
  shows "\<exists>p'. map_of (players s') i = Some p' \<and>
              (p_x p = NaN64 \<longrightarrow> p_x p' = NaN64) \<and> (p_y p = NaN64 \<longrightarrow> p_y p' = NaN64)"
  using playerMove_position [OF assms]
  by (auto simp: displaced_def clamp_NaN)




subsection \<open>A kill, then the victim leaves\<close>

lemma duel_start: "reachable (duel 0 100 [] [])"
proof -
  let ?ea = "feed [0, 0] (1 / 2) [] 1000 ''q''"
  let ?eb = "feed [1 / 40, 0] (1 / 2) [] 1000 ''q''"
  let ?s = "init\<lparr>players := [(''a'', tank ''a'' 0 0)]\<rparr>"
  have 1: "connect ''a'' ?ea init = (?s, snd (connect ''a'' ?ea init))"
    by (simp add: connect_def connect_player_def init_def tank_def seated_def consts_defs)
  have 2: "connect ''b'' ?eb ?s = (duel 0 100 [] [], snd (connect ''b'' ?eb ?s))"
    by (simp add: connect_def connect_player_def init_def tank_def seated_def duel_def
        consts_defs)
  from r_connect [OF r_connect [OF r_init 1] 2] show ?thesis .
qed

lemma duel_shoot:
  assumes "t0 + 300 \<le> t" and "0 \<le> t"
  shows "playerShoot ''a'' number_0 (feed [] (1 / 2) [] t ''k'') (duel t0 h [] xs)
           = Inr (duel t h [(''k'', shell ''a'')] xs, [])"
  using assms
  by (simp add: playerShoot_def duel_def init_def tank_def seated_def shell_def number_0_def
      consts_defs)

lemma duel_tick:
  assumes "25 < h" and "0 \<le> t"
  shows "\<exists>xs' out. tick (steady t) (duel t0 h [(''k'', shell ''a'')] xs)
           = Inr (duel t0 (h - 25) [] xs', out)"
  using assms
  by (simp add: tick_def spawnPowerUp_def sweep_def hit_def createExplosion_def duel_def
      init_def tank_def seated_def shell_def steady_def checkCollision_def bulletRect_def
      playerRect_def Let_def consts_defs)

lemma duel_kill:
  assumes "0 \<le> t"
  shows "\<exists>xs' out s1.
           tick (steady t) (duel t0 25 [(''k'', shell ''a'')] xs) = Inr (s1, out) \<and>
           disconnect ''b'' (steady t) s1
             = (aftermath t0 xs', snd (disconnect ''b'' (steady t) s1))"
  using assms
  by (simp add: tick_def spawnPowerUp_def sweep_def hit_def died_def createExplosion_def
      duel_def updateLeaderboard_def playerStat_def kd_def js_div_def toFixed2_def disconnect_def
      aftermath_def ranking_def init_def tank_def seated_def shell_def steady_def
      checkCollision_def bulletRect_def playerRect_def Let_def consts_defs)

lemma duel_round:
  assumes "reachable (duel t0 h [] xs)" and "25 < h" and "t0 + 300 \<le> t" and "0 \<le> t"
  shows "\<exists>xs'. reachable (duel t (h - 25) [] xs')"
proof -
  have "reachable (duel t h [(''k'', shell ''a'')] xs)"
    using assms(1) duel_shoot [OF assms(3,4)] by (rule r_shoot)
  moreover obtain xs' out
    where "tick (steady (t + 5)) (duel t h [(''k'', shell ''a'')] xs)
             = Inr (duel t (h - 25) [] xs', out)"
    using duel_tick [OF assms(2), of "t + 5" t xs] assms(4) by auto
  ultimately have "reachable (duel t (h - 25) [] xs')" by (rule r_tick)
  then show ?thesis ..
qed

lemma reachable_aftermath: "\<exists>xs. reachable (aftermath 1900 xs)"
proof -
  from duel_round [OF duel_start, of 1000] obtain xs1 where "reachable (duel 1000 75 [] xs1)"
    by auto
  from duel_round [OF this, of 1300] obtain xs2 where "reachable (duel 1300 50 [] xs2)"
    by auto
  from duel_round [OF this, of 1600] obtain xs3 where "reachable (duel 1600 25 [] xs3)"
    by auto
  then have 4: "reachable (duel 1900 25 [(''k'', shell ''a'')] xs3)"
    using duel_shoot [of 1600 1900 25 xs3] by (simp add: r_shoot)
  from duel_kill [of 1905 1900 xs3] obtain xs' out s1
    where 5: "tick (steady 1905) (duel 1900 25 [(''k'', shell ''a'')] xs3) = Inr (s1, out)"
      and 6: "disconnect ''b'' (steady 1905) s1
                = (aftermath 1900 xs', snd (disconnect ''b'' (steady 1905) s1))"
    by auto
  from r_disconnect [OF r_tick [OF 4 5] 6] show ?thesis ..
qed

lemma aftermath_tick:
  "\<exists>s1. tick (steady 2000) (aftermath t xs) = Inr (s1, [(Broadcast, gameUpdate s1)]) \<and>
        map fst (players s1) = [''a''] \<and> leaderboard s1 = ranking"
  by (simp add: tick_def spawnPowerUp_def sweep_def aftermath_def init_def steady_def Let_def
      consts_defs)

lemma stale_leaderboard:
  "\<exists>s orc s1 out x. reachable s \<and> tick orc s = Inr (s1, out) \<and>
     (Broadcast, gameUpdate s1) \<in> set out \<and> x \<in> set (leaderboard s1) \<and>
     l_id x \<notin> fst ` set (players s1)"
proof -
  obtain xs where 1: "reachable (aftermath 1900 xs)"
    using reachable_aftermath ..
  obtain s1
    where 2: "tick (steady 2000) (aftermath 1900 xs) = Inr (s1, [(Broadcast, gameUpdate s1)])"
    and 3: "map fst (players s1) = [''a'']" and 4: "leaderboard s1 = ranking"
    using aftermath_tick [of 1900 xs] by auto
  let ?x = "\<lparr>l_id = ''b'', l_score = 0, l_kills = Num 0, l_deaths = Num 1, l_kd = Some 0\<rparr>"
  have "?x \<in> set (leaderboard s1)" by (simp add: 4 ranking_def)
  moreover have "l_id ?x \<notin> fst ` set (players s1)"
  proof -
    have "fst ` set (players s1) = set (map fst (players s1))" by simp
    then show ?thesis unfolding 3 by simp
  qed
  ultimately show ?thesis
    using 1 2
    by (intro exI [of _ "aftermath 1900 xs"] exI [of _ "steady 2000"] exI [of _ s1]
        exI [of _ "[(Broadcast, gameUpdate s1)]"] exI [of _ ?x]) simp
qed

subsection \<open>Who writes the leaderboard\<close>

lemma connect_leaderboard: "leaderboard (fst (connect i orc s)) = leaderboard s"
  by (simp add: connect_def Let_def split_def)

lemma disconnect_leaderboard: "leaderboard (fst (disconnect i orc s)) = leaderboard s"
  by (simp add: disconnect_def Let_def split_def split: list.splits)

lemma collect_leaderboard:
  "collect us i p orc s = Inr (s1, out) \<Longrightarrow> leaderboard s1 = leaderboard s"
proof (induction us)
  case Nil
  then show ?case by simp
next
  case (Cons a us)
  obtain k u where a: "a = (k, u)" by (cases a)
  show ?case
    using Cons unfolding a
    by (auto split: if_splits sum.splits prod.splits)
qed

lemma playerMove_leaderboard:
  "playerMove i d orc s = Inr (s1, out) \<Longrightarrow> leaderboard s1 = leaderboard s"
  by (auto simp: playerMove_def Let_def split_def split: option.splits
      dest!: collect_leaderboard)

lemma playerShoot_leaderboard:
  "playerShoot i a orc s = Inr (s1, out) \<Longrightarrow> leaderboard s1 = leaderboard s"
  by (auto simp: playerShoot_def Let_def split_def split: option.splits if_splits)

lemma playerHit_sent_append [simp]:
  "playerHit_sent (xs @ ys) \<longleftrightarrow> playerHit_sent xs \<or> playerHit_sent ys"
  unfolding playerHit_sent_def set_append Un_iff by blast

lemma playerHit_sent_Cons [simp]:
  "playerHit_sent ((Broadcast, PlayerHit i j d x y) # out)"
  unfolding playerHit_sent_def by (simp only: list.set insert_iff) blast

lemma hit_leaderboard:
  assumes "hit i p k b orc s = Inr (orc1, s1, out)" and "leaderboard s1 \<noteq> leaderboard s"
  shows "js_le (js_sub (p_health p) (Num (if b_damage b = 0 then 25 else b_damage b))) (Num 0)
         \<and> playerHit_sent out"
  using assms
  by (auto simp: hit_def Let_def Date_now_def createExplosion_def split_def
      split: option.splits if_splits sum.splits)

lemma players_loop_leaderboard:
  "players_loop ps k b orc s = Inr (orc1, s1, out) \<Longrightarrow> leaderboard s1 \<noteq> leaderboard s \<Longrightarrow>
   playerHit_sent out"
proof (induction ps)
  case Nil
  then show ?case by simp
next
  case (Cons a ps)
  obtain i p where a: "a = (i, p)" by (cases a)
  show ?case
    using Cons unfolding a
    by (auto split: if_splits dest!: hit_leaderboard)
qed

lemma bullets_loop_leaderboard:
  "bullets_loop bs orc s = Inr (orc1, s1, out) \<Longrightarrow> leaderboard s1 \<noteq> leaderboard s \<Longrightarrow>
   playerHit_sent out"
proof (induction bs arbitrary: orc s orc1 s1 out)
  case Nil
  then show ?case by simp
next
  case (Cons a bs)
  obtain k b0 where a: "a = (k, b0)" by (cases a)
  define b where "b = b0\<lparr>b_x := d_add (b_x b0) (b_dx b0), b_y := d_add (b_y b0) (b_dy b0)\<rparr>"
  define sa where "sa = s\<lparr>bullets := AList.update k b (bullets s)\<rparr>"
  show ?case
  proof (cases "d_lt (b_x b) (Fin 0) \<or> d_gt (b_x b) (Fin GAME_WIDTH) \<or>
                d_lt (b_y b) (Fin 0) \<or> d_gt (b_y b) (Fin GAME_HEIGHT)")
    case True
    with Cons.prems(1)
    have "bullets_loop bs orc (sa\<lparr>bullets := AList.delete k (bullets sa)\<rparr>)
            = Inr (orc1, s1, out)"
      unfolding a by (simp add: Let_def b_def sa_def)
    from Cons.IH [OF this] Cons.prems(2) show ?thesis by (simp add: sa_def)
  next
    case False
    with Cons.prems(1) obtain orc2 s2 out1 out2
      where 1: "players_loop (players sa) k b orc sa = Inr (orc2, s2, out1)"
        and 2: "bullets_loop bs orc2 s2 = Inr (orc1, s1, out2)" and 3: "out = out1 @ out2"
      unfolding a by (auto simp: Let_def b_def sa_def split: sum.splits)
    show ?thesis
    proof (cases "leaderboard s2 = leaderboard sa")
      case True
      with Cons.prems(2) have "leaderboard s1 \<noteq> leaderboard s2" by (simp add: sa_def)
      from Cons.IH [OF 2 this] 3 show ?thesis by auto
    next
      case False
      from players_loop_leaderboard [OF 1 False] 3 show ?thesis by auto
    qed
  qed
qed

lemma spawnPowerUp_leaderboard: "leaderboard (snd (spawnPowerUp orc s)) = leaderboard s"
  by (simp add: spawnPowerUp_def Let_def split_def)

lemma tick_leaderboard:
  assumes "tick orc s = Inr (s1, out)" and "leaderboard s1 \<noteq> leaderboard s"
  shows "playerHit_sent out"
proof -
  define sa
    where "sa = sweep (fst (Date_now (fst (spawnPowerUp orc s)))) (snd (spawnPowerUp orc s))"
  from assms(1) obtain orc1 orc2 out1
    where 1: "bullets_loop (bullets sa) orc1 sa = Inr (orc2, s1, out1)"
      and 2: "out = out1 @ [(Broadcast, gameUpdate s1)]"
    by (auto simp: tick_def Let_def split_def sa_def split: sum.splits)
  have "leaderboard sa = leaderboard s"
    by (simp add: sa_def sweep_def Let_def spawnPowerUp_leaderboard)
  with assms(2) have "leaderboard s1 \<noteq> leaderboard sa" by simp
  from bullets_loop_leaderboard [OF 1 this] 2 show ?thesis by auto
qed

text \<open>
  Claim C10. The connection and disconnect handlers leave the leaderboard as it is, and
  so do \<^verbatim>\<open>playerMove\<close> and \<^verbatim>\<open>playerShoot\<close>. A tick that changes it has emitted a
  \<^verbatim>\<open>playerHit\<close>, and a hit that changes it has brought the victim's health to 0 or
  below: the only writer is \<^verbatim>\<open>updateLeaderboard\<close> in the fatal branch. So a snapshot can
  carry an entry of a player that has left: there is a reachable state whose next tick
  broadcasts a leaderboard with an id that is no key of the player store.
\<close>

theorem leaderboard_written_by_kills_only:
  "leaderboard (fst (connect i orc s)) = leaderboard s \<and>
   leaderboard (fst (disconnect i orc s)) = leaderboard s \<and>
   (playerMove i d orc s = Inr (s1, out) \<longrightarrow> leaderboard s1 = leaderboard s) \<and>
   (playerShoot i a orc s = Inr (s1, out) \<longrightarrow> leaderboard s1 = leaderboard s) \<and>
   (tick orc s = Inr (s1, out) \<and> leaderboard s1 \<noteq> leaderboard s \<longrightarrow>
      playerHit_sent out) \<and>
   (hit i p k b orc s = Inr (orc1, s1, out) \<and> leaderboard s1 \<noteq> leaderboard s \<longrightarrow>
      js_le (js_sub (p_health p) (Num (if b_damage b = 0 then 25 else b_damage b))) (Num 0)) \<and>
   (\<exists>s orc s1 out x. reachable s \<and> tick orc s = Inr (s1, out) \<and>
      (Broadcast, gameUpdate s1) \<in> set out \<and> x \<in> set (leaderboard s1) \<and>
      l_id x \<notin> fst ` set (players s1))"
proof (intro conjI impI)
  show "leaderboard (fst (connect i orc s)) = leaderboard s"
    by (rule connect_leaderboard)
  show "leaderboard (fst (disconnect i orc s)) = leaderboard s"
    by (rule disconnect_leaderboard)
  show "leaderboard s1 = leaderboard s" if "playerMove i d orc s = Inr (s1, out)"
    using that by (rule playerMove_leaderboard)
  show "leaderboard s1 = leaderboard s" if "playerShoot i a orc s = Inr (s1, out)"
    using that by (rule playerShoot_leaderboard)
  show "playerHit_sent out"
    if "tick orc s = Inr (s1, out) \<and> leaderboard s1 \<noteq> leaderboard s"
    using that tick_leaderboard by blast
  show "js_le (js_sub (p_health p) (Num (if b_damage b = 0 then 25 else b_damage b))) (Num 0)"
    if "hit i p k b orc s = Inr (orc1, s1, out) \<and> leaderboard s1 \<noteq> leaderboard s"
    using that hit_leaderboard by blast
  show "\<exists>s orc s1 out x. reachable s \<and> tick orc s = Inr (s1, out) \<and>
      (Broadcast, gameUpdate s1) \<in> set out \<and> x \<in> set (leaderboard s1) \<and>
      l_id x \<notin> fst ` set (players s1)"
    by (rule stale_leaderboard)
qed

text \<open>
  After \<open>a\<close> has killed \<open>b\<close> and \<open>b\<close> has left, a connection, a disconnect, a move and a
  shot all keep the ranking of \<open>a\<close> and \<open>b\<close>; the tick and the hit that killed \<open>b\<close> wrote it.
\<close>

theorem leaderboard_written_by_kills_only_witness:
  "leaderboard (fst (connect ''b'' (steady 2000) (aftermath 1900 []))) = ranking \<and>
   leaderboard (fst (disconnect ''a'' (steady 2000) (aftermath 1900 []))) = ranking \<and>
   (\<exists>s1. playerMove ''a'' \<lparr>m_dx = Fin 1, m_dy = Fin 0, m_angle = number_0\<rparr> (steady 2000)
           (aftermath 1900 []) = Inr (s1, []) \<and> leaderboard s1 = ranking) \<and>
   (\<exists>s1. playerShoot ''a'' number_0 (steady 2200) (aftermath 1900 []) = Inr (s1, []) \<and>
         bullets s1 \<noteq> [] \<and> leaderboard s1 = ranking) \<and>
   (\<exists>s1 out. tick (steady 1905) (duel 1900 25 [(''k'', shell ''a'')] []) = Inr (s1, out) \<and>
         leaderboard (duel 1900 25 [(''k'', shell ''a'')] []) = [] \<and>
         leaderboard s1 = ranking \<and> playerHit_sent out) \<and>
   (\<exists>orc1 s1 out. hit ''b'' ((tank ''b'' 29 0)\<lparr>p_health := Num 25\<rparr>) ''k''
                     ((shell ''a'')\<lparr>b_x := Fin 32\<rparr>) (steady 1905)
                     (duel 1900 25 [(''k'', shell ''a'')] []) = Inr (orc1, s1, out) \<and>
         leaderboard s1 = ranking \<and>
         js_le (js_sub (p_health ((tank ''b'' 29 0)\<lparr>p_health := Num 25\<rparr>)) (Num 25))
           (Num 0))"
proof -
  let ?s = "aftermath 1900 []"
  let ?d = "\<lparr>m_dx = Fin 1, m_dy = Fin 0, m_angle = number_0\<rparr>"
  note t = leaderboard_written_by_kills_only
  have l: "leaderboard ?s = ranking" by (simp add: aftermath_def)
  have 1: "leaderboard (fst (connect ''b'' (steady 2000) ?s)) = ranking"
    using t [of "''b''" "steady 2000" ?s] l by simp
  have 2: "leaderboard (fst (disconnect ''a'' (steady 2000) ?s)) = ranking"
    using t [of "''a''" "steady 2000" ?s] l by simp
  obtain s1 where m: "playerMove ''a'' ?d (steady 2000) ?s = Inr (s1, [])"
    by (simp add: playerMove_def aftermath_def init_def tank_def seated_def steady_def Let_def)
  have 3: "leaderboard s1 = ranking"
    using t [of "''a''" "steady 2000" ?s ?d s1 "[]"] m l by simp
  obtain s2 where sh: "playerShoot ''a'' number_0 (steady 2200) ?s = Inr (s2, [])"
    and b: "bullets s2 \<noteq> []"
    by (simp add: playerShoot_def aftermath_def init_def tank_def seated_def steady_def Let_def)
  have 4: "leaderboard s2 = ranking"
    using t [of "''a''" "steady 2200" ?s _ s2 "[]" number_0] sh l by simp
  let ?k = "duel 1900 25 [(''k'', shell ''a'')] []"
  obtain s3 out where k: "tick (steady 1905) ?k = Inr (s3, out)"
    and r: "leaderboard s3 = ranking"
    by (simp add: tick_def spawnPowerUp_def sweep_def hit_def died_def createExplosion_def
        duel_def updateLeaderboard_def playerStat_def kd_def js_div_def toFixed2_def ranking_def
        init_def tank_def seated_def shell_def steady_def checkCollision_def bulletRect_def
        playerRect_def Let_def consts_defs)
  have e: "leaderboard ?k = []" by (simp add: duel_def init_def)
  have 5: "playerHit_sent out"
    using t [of _ "steady 1905" ?k _ s3 out] k r e by (simp add: ranking_def)
  let ?p = "(tank ''b'' 29 0)\<lparr>p_health := Num 25\<rparr>"
  let ?b = "(shell ''a'')\<lparr>b_x := Fin 32\<rparr>"
  obtain orc1 s4 out4 where h: "hit ''b'' ?p ''k'' ?b (steady 1905) ?k = Inr (orc1, s4, out4)"
    and r4: "leaderboard s4 = ranking"
    by (simp add: hit_def died_def createExplosion_def duel_def updateLeaderboard_def
        playerStat_def kd_def js_div_def toFixed2_def ranking_def init_def tank_def seated_def shell_def
        steady_def Let_def consts_defs)
  have 6: "js_le (js_sub (p_health ?p) (Num 25)) (Num 0)"
    using t [where i = "''b''" and p = ?p and k = "''k''" and b = ?b and orc = "steady 1905"
        and s = ?k and ?orc1.0 = orc1 and ?s1.0 = s4 and out = out4] h r4 e
    by (simp add: ranking_def shell_def)
  from 1 2 m 3 sh b 4 k e r 5 h r4 6 show ?thesis by blast
qed

end
